theory Spec2Isabelle
  imports Main "HOL-Library.Monad_Syntax"
begin

section \<open>The matrix kernel\<close>

text \<open>
  The engines of \<^verbatim>\<open>ultimatekalman.c\<close> and of the associative smoother are written
  against a matrix kernel (\<^verbatim>\<open>kalman.h\<close>) that wraps dense BLAS/LAPACK routines.
  A matrix is a block of doubles with a row and a column count. The element type
  is left open: the development only uses the constants \<open>0\<close>, \<open>1\<close>, \<open>- 1\<close> and the
  product of two elements, through the syntactic classes, so no law of exact
  arithmetic is assumed of the doubles.

  A pointer \<^verbatim>\<open>matrix_t*\<close> is an \<open>'a matrix option\<close>, \<open>None\<close> being \<^verbatim>\<open>NULL\<close>.
  A function that can stop the program (a failed \<^verbatim>\<open>assert\<close>, a read through a null
  pointer) returns an option, \<open>None\<close> meaning that the call does not return.
\<close>

datatype 'a matrix = Matrix (matrix_rows: nat) (matrix_cols: nat) (elements: "'a list list")

definition matrix_get :: "'a matrix \<Rightarrow> nat \<Rightarrow> nat \<Rightarrow> 'a" where
  "matrix_get A i j = elements A ! i ! j"

text \<open>
  The numerical routines the kernel wraps are parameters of the model: the value
  \<^verbatim>\<open>NaN = 0.0 / 0.0\<close>, \<^verbatim>\<open>dgemm\<close> (\<open>C \<leftarrow> alpha A B + beta C\<close>), \<^verbatim>\<open>dtrtrs\<close> (solve with an
  upper triangular matrix), \<^verbatim>\<open>dgeqrf\<close> (QR factorisation in place, giving the
  overwritten matrix and the reflector scalars \<open>TAU\<close>), \<^verbatim>\<open>dormqr\<close> (apply \<open>Q\<^sup>T\<close> from
  the left) and \<^verbatim>\<open>dscal\<close> (scale by a constant).
\<close>

record 'a kernel =
  NaN :: 'a
  dgemm :: "'a \<Rightarrow> 'a matrix \<Rightarrow> 'a matrix \<Rightarrow> 'a \<Rightarrow> 'a matrix \<Rightarrow> 'a matrix"
  dtrtrs :: "'a matrix \<Rightarrow> 'a matrix \<Rightarrow> 'a matrix"
  dgeqrf :: "'a matrix \<Rightarrow> 'a matrix \<times> 'a matrix"
  dormqr :: "'a matrix \<Rightarrow> 'a matrix \<Rightarrow> 'a matrix \<Rightarrow> 'a matrix"
  dscal :: "'a matrix \<Rightarrow> 'a \<Rightarrow> 'a matrix"

text \<open>
  Modelled from the spec: the kernel functions below are declared in \<^verbatim>\<open>kalman.h\<close>,
  which is not part of the sources. The spec lists them as "matrix create/copy/sub,
  identity, vertical concatenation, QR factor-in-place + apply-\<open>Q\<^sup>T\<close>-in-place,
  triangular solve, triu masking, GEMM-like mutate-multiply-accumulate"; "chop" is
  "purely a dimension reduction that discards trailing rows/columns". A function
  that mutates an argument in place returns the new value of that argument.
\<close>

definition matrix_create_constant :: "nat \<Rightarrow> nat \<Rightarrow> 'a \<Rightarrow> 'a matrix" where
  "matrix_create_constant rows cols v = Matrix rows cols (replicate rows (replicate cols v))"

text \<open>
  \<^verbatim>\<open>matrix_create\<close> allocates without initialising; its one caller overwrites the
  whole block before reading it, so the model fills it with zeros.
\<close>

definition matrix_create :: "nat \<Rightarrow> nat \<Rightarrow> 'a::zero matrix" where
  "matrix_create rows cols = matrix_create_constant rows cols 0"

definition matrix_create_copy :: "'a matrix \<Rightarrow> 'a matrix" where
  "matrix_create_copy A = A"

definition matrix_mutate_copy :: "'a matrix \<Rightarrow> 'a matrix \<Rightarrow> 'a matrix" where
  "matrix_mutate_copy dst src = src"

definition matrix_create_sub :: "'a matrix \<Rightarrow> nat \<Rightarrow> nat \<Rightarrow> nat \<Rightarrow> nat \<Rightarrow> 'a matrix" where
  "matrix_create_sub A first_row rows first_col cols =
     Matrix rows cols
       (map (\<lambda>i. map (\<lambda>j. matrix_get A (first_row + i) (first_col + j)) [0..<cols]) [0..<rows])"

definition matrix_mutate_chop :: "'a matrix \<Rightarrow> nat \<Rightarrow> nat \<Rightarrow> 'a matrix" where
  "matrix_mutate_chop A rows cols =
     Matrix rows cols (map (\<lambda>i. map (\<lambda>j. matrix_get A i j) [0..<cols]) [0..<rows])"

definition matrix_mutate_triu :: "'a::zero matrix \<Rightarrow> 'a matrix" where
  "matrix_mutate_triu A =
     Matrix (matrix_rows A) (matrix_cols A)
       (map (\<lambda>i. map (\<lambda>j. if j < i then 0 else matrix_get A i j) [0..<matrix_cols A])
         [0..<matrix_rows A])"

text \<open>
  Vertical concatenation accepts null blocks: the engines stack \<open>Rbar\<close> on the
  weighted observations when either may be absent, and test the result against
  \<^verbatim>\<open>NULL\<close> ("we got some rows from at least one of the two blocks").
\<close>

fun matrix_create_vconcat :: "'a matrix option \<Rightarrow> 'a matrix option \<Rightarrow> 'a matrix option" where
  "matrix_create_vconcat None None = None"
| "matrix_create_vconcat (Some A) None = Some (matrix_create_copy A)"
| "matrix_create_vconcat None (Some B) = Some (matrix_create_copy B)"
| "matrix_create_vconcat (Some A) (Some B) =
     Some (Matrix (matrix_rows A + matrix_rows B) (matrix_cols A) (elements A @ elements B))"

definition matrix_create_trisolve :: "'a kernel \<Rightarrow> 'a matrix \<Rightarrow> 'a matrix \<Rightarrow> 'a matrix" where
  "matrix_create_trisolve K A B = dtrtrs K A B"

definition matrix_mutate_trisolve :: "'a kernel \<Rightarrow> 'a matrix \<Rightarrow> 'a matrix \<Rightarrow> 'a matrix" where
  "matrix_mutate_trisolve K A B = dtrtrs K A B"

definition matrix_create_mutate_qr :: "'a kernel \<Rightarrow> 'a matrix \<Rightarrow> 'a matrix \<times> 'a matrix" where
  "matrix_create_mutate_qr K A = dgeqrf K A"

definition matrix_mutate_apply_qt ::
  "'a kernel \<Rightarrow> 'a matrix \<Rightarrow> 'a matrix \<Rightarrow> 'a matrix \<Rightarrow> 'a matrix" where
  "matrix_mutate_apply_qt K A TAU C = dormqr K A TAU C"

definition matrix_mutate_gemm ::
  "'a kernel \<Rightarrow> 'a \<Rightarrow> 'a matrix \<Rightarrow> 'a matrix \<Rightarrow> 'a \<Rightarrow> 'a matrix \<Rightarrow> 'a matrix" where
  "matrix_mutate_gemm K alpha A B beta C = dgemm K alpha A B beta C"

definition matrix_mutate_scale :: "'a kernel \<Rightarrow> 'a matrix \<Rightarrow> 'a \<Rightarrow> 'a matrix" where
  "matrix_mutate_scale K A s = dscal K A s"

text \<open>
  A matrix is upper triangular when every entry strictly below the diagonal is zero.
\<close>

definition upper_triangular :: "'a::zero matrix \<Rightarrow> bool" where
  "upper_triangular A =
     (\<forall>i \<in> set [0..<matrix_rows A]. \<forall>j \<in> set [0..<matrix_cols A].
        j < i \<longrightarrow> matrix_get A i j = 0)"

subsection \<open>Covariance matrices\<close>

text \<open>
  \<^verbatim>\<open>cov_weigh\<close> of \<^verbatim>\<open>ultimatekalman.c\<close>: both arguments are asserted to be non-null,
  type \<^verbatim>\<open>'W'\<close> multiplies by the factor, \<^verbatim>\<open>'U'\<close> and \<^verbatim>\<open>'F'\<close> solve with it, \<^verbatim>\<open>'w'\<close> scales
  the rows, and any other type fails the assertion \<^verbatim>\<open>assert(0)\<close>.
\<close>

definition cov_weigh ::
  "'a::{zero,one,times} kernel \<Rightarrow> 'a matrix option \<Rightarrow> char \<Rightarrow> 'a matrix option \<Rightarrow> 'a matrix option"
  where
  "cov_weigh K cov_p cov_type A_p = do {
     A \<leftarrow> A_p;
     cov \<leftarrow> cov_p;
     if cov_type = CHR ''W'' then
       if matrix_cols cov = matrix_rows A then
         Some (dgemm K 1 cov A 0 (matrix_create_constant (matrix_rows A) (matrix_cols A) 0))
       else None
     else if cov_type = CHR ''U'' \<or> cov_type = CHR ''F'' then
       Some (matrix_create_trisolve K cov A)
     else if cov_type = CHR ''w'' then
       if matrix_rows cov = matrix_rows A then
         Some (Matrix (matrix_rows A) (matrix_cols A)
           (map (\<lambda>i. map (\<lambda>j. matrix_get cov i 0 * matrix_get A i j) [0..<matrix_cols A])
             [0..<matrix_rows A]))
       else None
     else None
   }"

section \<open>The step log\<close>

text \<open>
  Modelled from the spec: the step log \<^verbatim>\<open>farray_t\<close> is declared in \<^verbatim>\<open>kalman.h\<close>, which is
  not part of the sources. The spec describes an "append-only random-access buffer
  with a sliding window. Externally addressed by logical step index \<open>s\<close>; internally
  by \<open>s - earliest\<close>", where \<^verbatim>\<open>drop_first\<close> "advances the base" and \<^verbatim>\<open>drop_last\<close> "shrinks
  the tail". Reading or dropping an element that is not there does not return.
\<close>

record 'e farray =
  first :: int
  contents :: "'e list"

definition farray_create :: "'e farray" where
  "farray_create = \<lparr>first = 0, contents = []\<rparr>"

definition farray_size :: "'e farray \<Rightarrow> int" where
  "farray_size a = int (length (contents a))"

definition farray_first_index :: "'e farray \<Rightarrow> int" where
  "farray_first_index a = first a"

definition farray_last_index :: "'e farray \<Rightarrow> int" where
  "farray_last_index a = first a + farray_size a - 1"

definition farray_get :: "'e farray \<Rightarrow> int \<Rightarrow> 'e option" where
  "farray_get a i =
     (if farray_first_index a \<le> i \<and> i \<le> farray_last_index a
      then Some (contents a ! nat (i - first a)) else None)"

definition farray_get_first :: "'e farray \<Rightarrow> 'e option" where
  "farray_get_first a = farray_get a (farray_first_index a)"

definition farray_get_last :: "'e farray \<Rightarrow> 'e option" where
  "farray_get_last a = farray_get a (farray_last_index a)"

definition farray_append :: "'e farray \<Rightarrow> 'e \<Rightarrow> 'e farray" where
  "farray_append a e = a\<lparr>contents := contents a @ [e]\<rparr>"

definition farray_drop_first :: "'e farray \<Rightarrow> ('e \<times> 'e farray) option" where
  "farray_drop_first a =
     (case contents a of
        [] \<Rightarrow> None
      | e # es \<Rightarrow> Some (e, a\<lparr>first := first a + 1, contents := es\<rparr>))"

definition farray_drop_last :: "'e farray \<Rightarrow> ('e \<times> 'e farray) option" where
  "farray_drop_last a =
     (if contents a = [] then None
      else Some (last (contents a), a\<lparr>contents := butlast (contents a)\<rparr>))"

section \<open>The sequential engine\<close>

subsection \<open>Steps\<close>

text \<open>
  \<^verbatim>\<open>step_t\<close> of \<^verbatim>\<open>ultimatekalman.c\<close>. The step number is an \<^verbatim>\<open>int64_t\<close> and the dimension an
  \<^verbatim>\<open>int32_t\<close>; they are integers here: the only arithmetic on them is the successor
  of a step number and the predecessor of the last index of a non-empty log.
\<close>

record 'a step_t =
  step :: int
  dimension :: int
  Rdiag :: "'a matrix option"
  Rsupdiag :: "'a matrix option"
  y :: "'a matrix option"
  Rbar :: "'a matrix option"
  ybar :: "'a matrix option"
  state :: "'a matrix option"
  covariance :: "'a matrix option"

definition step_create :: "'a step_t" where
  "step_create =
     \<lparr>step = - 1, dimension = - 1, Rdiag = None, Rsupdiag = None, y = None,
      Rbar = None, ybar = None, state = None, covariance = None\<rparr>"

definition step_get_step :: "'a step_t \<Rightarrow> int" where
  "step_get_step v = step v"

definition step_get_dimension :: "'a step_t \<Rightarrow> int" where
  "step_get_dimension v = dimension v"

definition step_get_state :: "'a step_t \<Rightarrow> 'a matrix option" where
  "step_get_state v = state v"

subsection \<open>The filter\<close>

text \<open>
  \<^verbatim>\<open>kalman_t\<close> holds the log of sealed steps and the current step. The log and
  \<^verbatim>\<open>kalman->current\<close> hold pointers to steps; the model holds the steps themselves.
  Between an \<^verbatim>\<open>observe\<close> and the next \<^verbatim>\<open>evolve\<close> or \<^verbatim>\<open>rollback\<close> the C pointer
  \<^verbatim>\<open>current\<close> still names the step just appended, and nothing reads it before one of
  the two replaces it, as long as every \<^verbatim>\<open>observe\<close> follows an \<^verbatim>\<open>evolve\<close> or a
  \<^verbatim>\<open>rollback\<close>. \<^verbatim>\<open>matrix_free\<close> releases a block; a released slot is \<open>None\<close> here.
\<close>

record 'a kalman_t =
  steps :: "'a step_t farray"
  current :: "'a step_t option"

definition kalman_create :: "'a kalman_t" where
  "kalman_create = \<lparr>steps = farray_create, current = None\<rparr>"

definition kalman_earliest :: "'a kalman_t \<Rightarrow> int" where
  "kalman_earliest kalman =
     (if farray_size (steps kalman) = 0 then - 1
      else case farray_get_first (steps kalman) of Some s \<Rightarrow> step s | None \<Rightarrow> - 1)"

definition kalman_latest :: "'a kalman_t \<Rightarrow> int" where
  "kalman_latest kalman =
     (if farray_size (steps kalman) = 0 then - 1
      else case farray_get_last (steps kalman) of Some s \<Rightarrow> step s | None \<Rightarrow> - 1)"

text \<open>
  \<^verbatim>\<open>kalman_evolve\<close>. On an empty log it only records the dimension and step number
  \<open>0\<close>. Otherwise \<open>H_i\<close>, \<open>F_i\<close> and \<open>c_i\<close> are asserted to be non-null, the weighted
  blocks are stacked under the previous step's \<open>Rdiag\<close> and \<open>y\<close>, factored, and
  split between the previous step \<open>imo\<close> (which is sealed) and the current one.
  The function is long, so its two middle blocks are definitions of their own:
  \<open>evolve_stack\<close> builds \<open>A\<close>, \<open>B\<close> and \<open>y\<close> (the branch on \<^verbatim>\<open>imo->Rdiag != NULL\<close>),
  \<open>evolve_seal\<close> is the part from the factorisation to \<^verbatim>\<open>matrix_mutate_triu\<close>.
\<close>

definition evolve_stack ::
  "'a::zero step_t \<Rightarrow> int \<Rightarrow> 'a matrix \<Rightarrow> 'a matrix \<Rightarrow> 'a matrix \<Rightarrow>
     'a matrix option \<times> 'a matrix option \<times> 'a matrix option" where
  "evolve_stack imo n_i V_i_H_i V_i_F_i V_i_c_i =
     (case Rdiag imo of
        Some R \<Rightarrow>
          (let z_i = matrix_rows R in
           (matrix_create_vconcat (Some R) (Some V_i_F_i),
            matrix_create_vconcat (Some (matrix_create_constant z_i (nat n_i) 0)) (Some V_i_H_i),
            matrix_create_vconcat (y imo) (Some V_i_c_i)))
      | None \<Rightarrow>
          (Some (matrix_create_copy V_i_F_i),
           Some (matrix_create_copy V_i_H_i),
           Some (matrix_create_copy V_i_c_i)))"

definition evolve_seal ::
  "'a::zero kernel \<Rightarrow> 'a step_t \<Rightarrow> 'a step_t \<Rightarrow> 'a matrix \<Rightarrow> 'a matrix \<Rightarrow> 'a matrix \<Rightarrow>
     'a step_t \<times> 'a step_t" where
  "evolve_seal K imo kalman_current A B yv =
     (let (A, TAU) = matrix_create_mutate_qr K A;
          B = matrix_mutate_apply_qt K A TAU B;
          yv = matrix_mutate_apply_qt K A TAU yv;
          n_imo = dimension imo;
          kalman_current =
            (if int (matrix_rows B) > n_imo then
               kalman_current
                 \<lparr>Rbar := Some (matrix_create_sub B (nat n_imo)
                                 (nat (int (matrix_rows B) - n_imo)) 0 (matrix_cols B)),
                  ybar := Some (matrix_create_sub yv (nat n_imo)
                                 (nat (int (matrix_rows yv) - n_imo)) 0 (matrix_cols yv))\<rparr>
             else kalman_current);
          A = matrix_mutate_chop A (nat (min (int (matrix_rows A)) n_imo)) (matrix_cols A);
          B = matrix_mutate_chop B (nat (min (int (matrix_rows B)) n_imo)) (matrix_cols B);
          yv = matrix_mutate_chop yv (nat (min (int (matrix_rows yv)) n_imo)) (matrix_cols yv);
          imo = imo\<lparr>Rdiag := Some A, Rsupdiag := Some B, y := Some yv\<rparr>;
          imo = imo\<lparr>Rdiag := map_option matrix_mutate_triu (Rdiag imo)\<rparr>
      in (imo, kalman_current))"

definition kalman_evolve ::
  "'a::{zero,one,times,uminus} kernel \<Rightarrow> 'a kalman_t \<Rightarrow> int \<Rightarrow> 'a matrix option \<Rightarrow>
     'a matrix option \<Rightarrow> 'a matrix option \<Rightarrow> 'a matrix option \<Rightarrow> char \<Rightarrow> 'a kalman_t option"
  where
  "kalman_evolve K kalman n_i H_i F_i c_i K_i K_type =
     (let kalman_current = step_create\<lparr>dimension := n_i\<rparr> in
      if farray_size (steps kalman) = 0 then
        Some (kalman\<lparr>current := Some (kalman_current\<lparr>step := 0\<rparr>)\<rparr>)
      else do {
        imo \<leftarrow> farray_get_last (steps kalman);
        let kalman_current = kalman_current\<lparr>step := step imo + 1\<rparr>;
        _ \<leftarrow> H_i;
        _ \<leftarrow> F_i;
        _ \<leftarrow> c_i;
        V_i_H_i \<leftarrow> cov_weigh K K_i K_type H_i;
        V_i_F_i \<leftarrow> cov_weigh K K_i K_type F_i;
        V_i_c_i \<leftarrow> cov_weigh K K_i K_type c_i;
        let V_i_F_i = matrix_mutate_scale K V_i_F_i (- 1);
        let (A_p, B_p, y_p) = evolve_stack imo n_i V_i_H_i V_i_F_i V_i_c_i;
        A \<leftarrow> A_p;
        B \<leftarrow> B_p;
        yv \<leftarrow> y_p;
        let (imo, kalman_current) = evolve_seal K imo kalman_current A B yv;
        Some (kalman
          \<lparr>steps := (steps kalman)\<lparr>contents := butlast (contents (steps kalman)) @ [imo]\<rparr>,
           current := Some kalman_current\<rparr>)
      })"

text \<open>
  \<^verbatim>\<open>kalman_observe\<close>. The current step is asserted to exist. With an observation
  (\<open>o_i\<close> non-null) the weighted blocks are stacked under \<open>Rbar\<close> and \<open>ybar\<close>. A block
  with at least as many rows as columns is factored, chopped to at most \<open>n_i\<close> rows
  and masked to its upper triangle; a flat block is stored as it is. The estimate
  is solved for when \<open>Rdiag\<close> has \<open>n_i\<close> rows. With no block at all the step is
  appended as \<^verbatim>\<open>kalman_evolve\<close> left it. Its blocks, in the order of the source:
  \<open>observe_weigh\<close> (the branch on \<^verbatim>\<open>o_i != NULL\<close>), \<open>observe_factor\<close> (the branch on
  \<^verbatim>\<open>matrix_rows(A) >= matrix_cols(A)\<close>), \<open>observe_solve\<close> ("solve for the estimate") and
  \<open>observe_seal\<close> (the body of \<^verbatim>\<open>if ( A != NULL )\<close>).
\<close>

definition observe_weigh ::
  "'a::{zero,one,times} kernel \<Rightarrow> 'a matrix option \<Rightarrow> 'a matrix option \<Rightarrow> 'a matrix option \<Rightarrow>
     char \<Rightarrow> ('a matrix option \<times> 'a matrix option) option" where
  "observe_weigh K G_i o_i C_i C_type =
     (case o_i of
        None \<Rightarrow> Some (None, None)
      | Some _ \<Rightarrow> do {
          W_i_G_i \<leftarrow> cov_weigh K C_i C_type G_i;
          W_i_o_i \<leftarrow> cov_weigh K C_i C_type o_i;
          Some (Some W_i_G_i, Some W_i_o_i)
        })"

definition observe_factor ::
  "'a::zero kernel \<Rightarrow> int \<Rightarrow> 'a matrix \<Rightarrow> 'a matrix option \<Rightarrow>
     ('a matrix \<times> 'a matrix option) option" where
  "observe_factor K n_i A y_p =
     (if matrix_rows A \<ge> matrix_cols A then do {
        yv \<leftarrow> y_p;
        let (A, TAU) = matrix_create_mutate_qr K A;
        let yv = matrix_mutate_apply_qt K A TAU yv;
        let A = matrix_mutate_chop A (nat (min (int (matrix_rows A)) n_i)) (matrix_cols A);
        let yv = matrix_mutate_chop yv (nat (min (int (matrix_rows yv)) n_i)) (matrix_cols yv);
        Some (matrix_mutate_triu A, Some yv)
      }
      else Some (A, y_p))"

definition observe_solve ::
  "'a kernel \<Rightarrow> int \<Rightarrow> 'a matrix \<Rightarrow> 'a matrix option \<Rightarrow> 'a matrix option" where
  "observe_solve K n_i Rd y_p =
     (if int (matrix_rows Rd) = n_i then do {
        yv \<leftarrow> y_p;
        Some (matrix_create_trisolve K Rd yv)
      }
      else Some (matrix_create_constant (nat n_i) 1 (NaN K)))"

definition observe_seal ::
  "'a::zero kernel \<Rightarrow> 'a step_t \<Rightarrow> 'a matrix option \<Rightarrow> 'a matrix option \<Rightarrow> 'a step_t option"
  where
  "observe_seal K kalman_current A_p y_p =
     (case A_p of
        None \<Rightarrow> Some kalman_current
      | Some A \<Rightarrow> do {
          let n_i = dimension kalman_current;
          (Rd, y_p) \<leftarrow> observe_factor K n_i A y_p;
          st \<leftarrow> observe_solve K n_i Rd y_p;
          Some (kalman_current
            \<lparr>Rdiag := Some Rd, y := y_p, state := Some st,
             covariance := Some (matrix_create_copy Rd)\<rparr>)
        })"

definition kalman_observe ::
  "'a::{zero,one,times,uminus} kernel \<Rightarrow> 'a kalman_t \<Rightarrow> 'a matrix option \<Rightarrow>
     'a matrix option \<Rightarrow> 'a matrix option \<Rightarrow> char \<Rightarrow> 'a kalman_t option"
  where
  "kalman_observe K kalman G_i o_i C_i C_type = do {
     kalman_current \<leftarrow> current kalman;
     (W_i_G_i, W_i_o_i) \<leftarrow> observe_weigh K G_i o_i C_i C_type;
     let A_p = matrix_create_vconcat (Rbar kalman_current) W_i_G_i;
     let y_p = matrix_create_vconcat (ybar kalman_current) W_i_o_i;
     kalman_current \<leftarrow> observe_seal K kalman_current A_p y_p;
     Some (kalman\<lparr>steps := farray_append (steps kalman) kalman_current,
                  current := Some kalman_current\<rparr>)
   }"


text \<open>
  \<^verbatim>\<open>kalman_smooth\<close>. Both loops run from the last index of the log down to the first;
  the recursion below takes a segment of the log and treats the later steps first.
  The first loop threads \<^verbatim>\<open>prev_state\<close>, the state of the step after the one at
  hand; the second threads \<open>R\<close> and \<^verbatim>\<open>n_ipo\<close>, and \<open>smooth_covariance\<close> is the
  \<^verbatim>\<open>else\<close> branch of its body, which yields the new covariance and \<^verbatim>\<open>n_i\<close>.
\<close>

fun smooth_states ::
  "'a::{zero,one,times,uminus} kernel \<Rightarrow> 'a step_t list \<Rightarrow> 'a step_t list option" where
  "smooth_states K [] = Some []"
| "smooth_states K (i # later) = do {
     later \<leftarrow> smooth_states K later;
     yv \<leftarrow> y i;
     let st = (case state i of
                 None \<Rightarrow> matrix_create (matrix_rows yv) 1
               | Some st \<Rightarrow> st);
     let st = matrix_mutate_copy st yv;
     st \<leftarrow> (case later of
             [] \<Rightarrow> Some st
           | ipo # _ \<Rightarrow> do {
               Rs \<leftarrow> Rsupdiag i;
               prev_state \<leftarrow> state ipo;
               Some (matrix_mutate_gemm K (- 1) Rs prev_state 1 st)
             });
     Rd \<leftarrow> Rdiag i;
     let st = matrix_mutate_trisolve K Rd st;
     Some (i\<lparr>state := Some st\<rparr> # later)
   }"

definition smooth_covariance ::
  "'a::zero kernel \<Rightarrow> 'a step_t \<Rightarrow> 'a matrix \<Rightarrow> nat \<Rightarrow> ('a matrix \<times> nat) option" where
  "smooth_covariance K i R n_ipo = do {
     Rd \<leftarrow> Rdiag i;
     let n_i = matrix_rows Rd;
     A \<leftarrow> matrix_create_vconcat (Rsupdiag i) (Some R);
     S \<leftarrow> matrix_create_vconcat (Some Rd)
            (Some (matrix_create_constant (matrix_rows R) (matrix_cols Rd) 0));
     let (A, TAU) = matrix_create_mutate_qr K A;
     let S = matrix_mutate_apply_qt K A TAU S;
     Some (matrix_create_sub S n_ipo n_i 0 n_i, n_i)
   }"

fun smooth_covariances ::
  "'a::zero kernel \<Rightarrow> 'a step_t list \<Rightarrow> ('a step_t list \<times> ('a matrix \<times> nat) option) option"
  where
  "smooth_covariances K [] = Some ([], None)"
| "smooth_covariances K (i # later) = do {
     (later, carried) \<leftarrow> smooth_covariances K later;
     case carried of
       None \<Rightarrow> do {
         Rd \<leftarrow> Rdiag i;
         Some (i # later, Some (Rd, matrix_rows Rd))
       }
     | Some (R, n_ipo) \<Rightarrow> do {
         (cov, n_i) \<leftarrow> smooth_covariance K i R n_ipo;
         Some (i\<lparr>covariance := Some cov\<rparr> # later, Some (cov, n_i))
       }
   }"

definition kalman_smooth ::
  "'a::{zero,one,times,uminus} kernel \<Rightarrow> 'a kalman_t \<Rightarrow> 'a kalman_t option" where
  "kalman_smooth K kalman =
     (if farray_size (steps kalman) = 0 then Some kalman
      else do {
        log \<leftarrow> smooth_states K (contents (steps kalman));
        (log, _) \<leftarrow> smooth_covariances K log;
        Some (kalman\<lparr>steps := (steps kalman)\<lparr>contents := log\<rparr>\<rparr>)
      })"

definition kalman_covariance_type :: "'a kalman_t \<Rightarrow> int \<Rightarrow> char" where
  "kalman_covariance_type kalman si = CHR ''W''"


text \<open>
  \<^verbatim>\<open>kalman_forget\<close>: the loop drops the first step of the log while its index is at
  most \<open>si\<close>.
\<close>

function forget_loop :: "'e farray \<Rightarrow> int \<Rightarrow> 'e farray option" where
  "forget_loop a si =
     (if farray_first_index a \<le> si then
        (case farray_drop_first a of
           None \<Rightarrow> None
         | Some (_, a') \<Rightarrow> forget_loop a' si)
      else Some a)"
  by pat_completeness auto
termination
  by (relation "measure (\<lambda>(a, si). nat (si + 1 - farray_first_index a))")
    (auto simp: farray_drop_first_def farray_first_index_def split: list.splits)

declare forget_loop.simps [simp del]

definition kalman_forget :: "'a kalman_t \<Rightarrow> int \<Rightarrow> 'a kalman_t option" where
  "kalman_forget kalman si =
     (if farray_size (steps kalman) = 0 then Some kalman
      else
        let si = (if si < 0 then farray_last_index (steps kalman) - 1 else si) in
        if si > farray_last_index (steps kalman) - 1 then Some kalman
        else if si < farray_first_index (steps kalman) then Some kalman
        else do {
          log \<leftarrow> forget_loop (steps kalman) si;
          Some (kalman\<lparr>steps := log\<rparr>)
        })"

text \<open>
  \<^verbatim>\<open>kalman_rollback\<close>: the loop drops the last step of the log until it has dropped a
  step whose number is at most \<open>si\<close>; the step numbered \<open>si\<close> loses its sealed blocks
  and becomes the current step.
\<close>

function rollback_loop :: "'a kalman_t \<Rightarrow> int \<Rightarrow> 'a kalman_t option" where
  "rollback_loop kalman si =
     (case farray_drop_last (steps kalman) of
        None \<Rightarrow> None
      | Some (step_v, log) \<Rightarrow>
          let kalman = kalman\<lparr>steps := log\<rparr>;
              kalman =
                (if step step_v = si then
                   kalman\<lparr>current := Some (step_v
                     \<lparr>Rdiag := None, Rsupdiag := None, y := None, state := None,
                      covariance := None\<rparr>)\<rparr>
                 else kalman)
          in if step step_v > si then rollback_loop kalman si else Some kalman)"
  by pat_completeness auto
termination
  by (relation "measure (\<lambda>(kalman, si). length (contents (steps kalman)))")
    (auto simp: farray_drop_last_def split: if_splits)

declare rollback_loop.simps [simp del]

definition kalman_rollback :: "'a kalman_t \<Rightarrow> int \<Rightarrow> 'a kalman_t option" where
  "kalman_rollback kalman si =
     (if farray_size (steps kalman) = 0 then Some kalman
      else if si > farray_last_index (steps kalman) then Some kalman
      else if si < farray_first_index (steps kalman) then Some kalman
      else rollback_loop kalman si)"

section \<open>The MATLAB engine: evolve\<close>

text \<open>
  \<^verbatim>\<open>UltimateKalman.m\<close> implements the same filter. Its \<^verbatim>\<open>evolve\<close> is modelled here
  because it treats a missing \<open>H_i\<close> differently from the C engine. A MATLAB step is
  a struct with optional fields; it is held in a \<open>step_t\<close>, an absent field being
  \<open>None\<close> (\<^verbatim>\<open>estimatedState\<close> and \<^verbatim>\<open>estimatedCovariance\<close> are the fields \<open>state\<close> and
  \<open>covariance\<close>). The filter object holds the cell array \<^verbatim>\<open>steps\<close> and the struct
  \<^verbatim>\<open>current\<close>. A MATLAB error (a concatenation of blocks of different widths, an
  index beyond the bounds) ends the call: the result is \<open>None\<close>.

  The class \<^verbatim>\<open>CovarianceMatrix\<close> is not part of the sources; its method \<^verbatim>\<open>weigh\<close> is a
  parameter, as are the built-in \<^verbatim>\<open>qr\<close> and the product \<^verbatim>\<open>Q' * B\<close>.
\<close>

record ('a, 'c) matlab_kernel =
  weigh :: "'c \<Rightarrow> 'a matrix \<Rightarrow> 'a matrix"
  qr :: "'a matrix \<Rightarrow> 'a matrix \<times> 'a matrix"
  ctranspose_mtimes :: "'a matrix \<Rightarrow> 'a matrix \<Rightarrow> 'a matrix"

record 'a UltimateKalman =
  steps_m :: "'a step_t list"
  current_m :: "'a step_t option"

definition isempty :: "'a matrix \<Rightarrow> bool" where
  "isempty A = (matrix_rows A = 0 \<or> matrix_cols A = 0)"

definition eye :: "nat \<Rightarrow> 'a::{zero,one} matrix" where
  "eye l = Matrix l l (map (\<lambda>i. map (\<lambda>j. if i = j then 1 else 0) [0..<l]) [0..<l])"

definition zeros :: "nat \<Rightarrow> nat \<Rightarrow> 'a::zero matrix" where
  "zeros rows cols = matrix_create_constant rows cols 0"

text \<open>
  \<^verbatim>\<open>[A B]\<close> and \<^verbatim>\<open>[A; B]\<close>: a \<open>0\<close>-by-\<open>0\<close> block is skipped, otherwise the blocks must
  agree in the other dimension.
\<close>

definition horzcat :: "'a matrix \<Rightarrow> 'a matrix \<Rightarrow> 'a matrix option" where
  "horzcat A B =
     (if matrix_rows A = 0 \<and> matrix_cols A = 0 then Some B
      else if matrix_rows B = 0 \<and> matrix_cols B = 0 then Some A
      else if matrix_rows A = matrix_rows B then
        Some (Matrix (matrix_rows A) (matrix_cols A + matrix_cols B)
          (map (\<lambda>i. map (\<lambda>j. if j < matrix_cols A then matrix_get A i j
                                 else matrix_get B i (j - matrix_cols A))
                  [0..<matrix_cols A + matrix_cols B])
            [0..<matrix_rows A]))
      else None)"

definition vertcat :: "'a matrix \<Rightarrow> 'a matrix \<Rightarrow> 'a matrix option" where
  "vertcat A B =
     (if matrix_rows A = 0 \<and> matrix_cols A = 0 then Some B
      else if matrix_rows B = 0 \<and> matrix_cols B = 0 then Some A
      else if matrix_cols A = matrix_cols B then
        Some (Matrix (matrix_rows A + matrix_rows B) (matrix_cols A) (elements A @ elements B))
      else None)"

definition uminus_m :: "'a::uminus matrix \<Rightarrow> 'a matrix" where
  "uminus_m A = Matrix (matrix_rows A) (matrix_cols A) (map (map uminus) (elements A))"

text \<open>\<^verbatim>\<open>length(y)\<close>, \<^verbatim>\<open>A(1:k,:)\<close>, \<^verbatim>\<open>y(1:k,1)\<close>, \<^verbatim>\<open>A(k+1:end,:)\<close> and \<^verbatim>\<open>y(k+1:end,1)\<close>.\<close>

definition length_m :: "'a matrix \<Rightarrow> nat" where
  "length_m A = (if isempty A then 0 else max (matrix_rows A) (matrix_cols A))"

definition rows_upto :: "'a matrix \<Rightarrow> nat \<Rightarrow> 'a matrix option" where
  "rows_upto A k =
     (if k \<le> matrix_rows A then Some (matrix_create_sub A 0 k 0 (matrix_cols A)) else None)"

definition column1_upto :: "'a matrix \<Rightarrow> nat \<Rightarrow> 'a matrix option" where
  "column1_upto A k =
     (if k \<le> matrix_rows A \<and> 1 \<le> matrix_cols A then Some (matrix_create_sub A 0 k 0 1)
      else None)"

definition rows_from :: "'a matrix \<Rightarrow> nat \<Rightarrow> 'a matrix" where
  "rows_from A k = matrix_create_sub A k (matrix_rows A - k) 0 (matrix_cols A)"

definition column1_from :: "'a matrix \<Rightarrow> nat \<Rightarrow> 'a matrix option" where
  "column1_from A k =
     (if 1 \<le> matrix_cols A then Some (matrix_create_sub A k (matrix_rows A - k) 0 1) else None)"

text \<open>
  The replacement of \<open>H_i\<close>: "this allows the user to pass \<^verbatim>\<open>[]\<close> for H". It applies
  whenever the row count of \<open>H_i\<close> differs from \<open>l_i\<close>, the row count of \<open>F_i\<close>.
\<close>

definition evolve_H :: "nat \<Rightarrow> 'a::{zero,one} matrix \<Rightarrow> nat \<Rightarrow> 'a matrix option" where
  "evolve_H n_i H_i l_i =
     (if matrix_rows H_i \<noteq> l_i then
        if l_i = n_i then Some (eye l_i)
        else horzcat (eye l_i) (zeros l_i (n_i - l_i))
      else Some H_i)"

definition evolve_m ::
  "('a::{zero,one,uminus}, 'c) matlab_kernel \<Rightarrow> 'a UltimateKalman \<Rightarrow> nat \<Rightarrow> 'a matrix \<Rightarrow>
     'a matrix \<Rightarrow> 'a matrix \<Rightarrow> 'c \<Rightarrow> 'a UltimateKalman option" where
  "evolve_m M kalman n_i H_i F_i c_i K_i =
     (let cur = step_create\<lparr>dimension := int n_i\<rparr> in
      if steps_m kalman = [] then
        Some (kalman\<lparr>current_m := Some (cur\<lparr>step := 0\<rparr>)\<rparr>)
      else do {
        let imo = last (steps_m kalman);
        let cur = cur\<lparr>step := step imo + 1\<rparr>;
        let n_imo = nat (dimension imo);
        let l_i = matrix_rows F_i;
        H_i \<leftarrow> evolve_H n_i H_i l_i;
        let V_i_F_i = uminus_m (weigh M K_i F_i);
        let V_i_c_i = weigh M K_i c_i;
        let V_i_H_i = weigh M K_i H_i;
        (A, B, yv) \<leftarrow>
          (case Rdiag imo of
             None \<Rightarrow> Some (V_i_F_i, V_i_H_i, V_i_c_i)
           | Some R \<Rightarrow>
               if isempty R then Some (V_i_F_i, V_i_H_i, V_i_c_i)
               else do {
                 let z_i = matrix_rows R;
                 A \<leftarrow> vertcat R V_i_F_i;
                 B \<leftarrow> vertcat (zeros z_i n_i) V_i_H_i;
                 y_imo \<leftarrow> y imo;
                 yv \<leftarrow> vertcat y_imo V_i_c_i;
                 Some (A, B, yv)
               });
        let (Q, R) = qr M A;
        let B = ctranspose_mtimes M Q B;
        let yv = ctranspose_mtimes M Q yv;
        Rd \<leftarrow> rows_upto R (min (matrix_rows A) n_imo);
        Rs \<leftarrow> rows_upto B (min (matrix_rows B) n_imo);
        y1 \<leftarrow> column1_upto yv (min (length_m yv) n_imo);
        let imo = imo\<lparr>Rdiag := Some Rd, Rsupdiag := Some Rs, y := Some y1\<rparr>;
        cur \<leftarrow>
          (if matrix_rows B > n_imo then do {
             yb \<leftarrow> column1_from yv n_imo;
             Some (cur\<lparr>Rbar := Some (rows_from B n_imo), ybar := Some yb\<rparr>)
           }
           else Some cur);
        Some (kalman\<lparr>steps_m := butlast (steps_m kalman) @ [imo], current_m := Some cur\<rparr>)
      })"

section \<open>The associative smoother\<close>

text \<open>
  \<^verbatim>\<open>kalman_smooth_associative\<close> works on an array of step equations and an array of
  elements. Its matrices are handled through pointers only, and the kernel
  functions it calls receive pointers that may be null (a step without an
  observation has null \<open>e\<close> and \<open>J\<close>), so here the kernel functions are parameters on
  pointers: what they do with a null argument is theirs to say.
\<close>

type_synonym 'a ptr = "'a matrix option"

record 'a pointer_kernel =
  create_copy :: "'a ptr \<Rightarrow> 'a ptr"
  create_constant :: "int \<Rightarrow> int \<Rightarrow> 'a \<Rightarrow> 'a ptr"
  create_identity :: "int \<Rightarrow> int \<Rightarrow> 'a ptr"
  create_transpose :: "'a ptr \<Rightarrow> 'a ptr"
  create_multiply :: "'a ptr \<Rightarrow> 'a ptr \<Rightarrow> 'a ptr"
  create_add :: "'a ptr \<Rightarrow> 'a ptr \<Rightarrow> 'a ptr"
  create_subtract :: "'a ptr \<Rightarrow> 'a ptr \<Rightarrow> 'a ptr"
  create_mldivide :: "'a ptr \<Rightarrow> 'a ptr \<Rightarrow> 'a ptr"
  create_inverse :: "'a ptr \<Rightarrow> 'a ptr"
  create_mutate_qr :: "'a ptr \<Rightarrow> 'a ptr \<times> 'a ptr"
  mutate_apply_qt :: "'a ptr \<Rightarrow> 'a ptr \<Rightarrow> 'a ptr \<Rightarrow> 'a ptr"
  mutate_triu :: "'a ptr \<Rightarrow> 'a ptr"
  create_trisolve :: "string \<Rightarrow> 'a ptr \<Rightarrow> 'a ptr \<Rightarrow> 'a ptr"
  covariance_matrix_weigh :: "'a ptr \<Rightarrow> char \<Rightarrow> 'a ptr \<Rightarrow> 'a ptr"
  covariance_matrix_explicit :: "'a ptr \<Rightarrow> char \<Rightarrow> 'a ptr"
  rows_of :: "'a ptr \<Rightarrow> int"

text \<open>
  Modelled from the spec: \<^verbatim>\<open>kalman_step_equations_t\<close> is declared in \<^verbatim>\<open>kalman.h\<close>, which is
  not part of the sources. It is "a bundle of raw step equations (\<open>H, F, c, K,
  K_type, G, o, C, C_type\<close>) for the input", with the dimension, and the smoothed
  \<open>state\<close>, \<open>covariance\<close> and \<open>covariance_type\<close> as output. The fields carry the
  prefix \<open>q_\<close> here.
\<close>

record 'a equations =
  q_dimension :: int
  q_H :: "'a ptr"
  q_F :: "'a ptr"
  q_c :: "'a ptr"
  q_K :: "'a ptr"
  q_K_type :: char
  q_G :: "'a ptr"
  q_o :: "'a ptr"
  q_C :: "'a ptr"
  q_C_type :: char
  q_state :: "'a ptr"
  q_covariance :: "'a ptr"
  q_covariance_type :: char

text \<open>
  The element type, \<^verbatim>\<open>step_t\<close> of the associative smoother; its fields carry the
  prefix \<open>e_\<close> here.
\<close>

record 'a element =
  e_step :: int
  e_dimension :: int
  e_C_type :: char
  e_K_type :: char
  e_H :: "'a ptr"
  e_F :: "'a ptr"
  e_K :: "'a ptr"
  e_c :: "'a ptr"
  e_G :: "'a ptr"
  e_o :: "'a ptr"
  e_C :: "'a ptr"
  e_Z :: "'a ptr"
  e_A :: "'a ptr"
  e_b :: "'a ptr"
  e_e :: "'a ptr"
  e_J :: "'a ptr"
  e_E :: "'a ptr"
  e_g :: "'a ptr"
  e_L :: "'a ptr"
  e_state :: "'a ptr"
  e_covariance :: "'a ptr"

text \<open>
  \<^verbatim>\<open>step_create\<close> of the associative smoother, here \<open>element_create\<close>: a blank
  element.
\<close>

definition element_create :: "'a element" where
  "element_create =
     \<lparr>e_step = - 1, e_dimension = - 1, e_C_type = char_of (0 :: nat), e_K_type = char_of (0 :: nat),
      e_H = None, e_F = None, e_K = None, e_c = None, e_G = None, e_o = None, e_C = None,
      e_Z = None, e_A = None, e_b = None, e_e = None, e_J = None, e_E = None, e_g = None,
      e_L = None, e_state = None, e_covariance = None\<rparr>"

text \<open>\<^verbatim>\<open>elements_init\<close> over the whole range: element \<open>j\<close> is blank but for its step number.\<close>

definition elements_init :: "nat \<Rightarrow> 'a element list" where
  "elements_init l = map (\<lambda>j. element_create\<lparr>e_step := int j\<rparr>) [0..<l]"

definition build_filtering_element_new ::
  "'a::zero pointer_kernel \<Rightarrow> 'a equations list \<Rightarrow> 'a element list \<Rightarrow> nat \<Rightarrow> 'a element list"
  where
  "build_filtering_element_new K equations elements_v i =
     (let equation = equations ! i;
          n_i = q_dimension equation;
          elements_v = elements_v[i := (elements_v ! i)
            \<lparr>e_dimension := q_dimension equation,
             e_F := create_copy K (q_F equation),
             e_c := create_copy K (q_c equation),
             e_K := create_copy K (q_K equation),
             e_K_type := q_K_type equation\<rparr>]
      in if i = 0 then elements_v
      else
        let elements_v =
              (if i = 1 then
                 let step_0 = equations ! 0;
                     W_i_G_i = covariance_matrix_weigh K (q_C step_0) (q_C_type step_0) (q_G step_0);
                     W_i_o_i = covariance_matrix_weigh K (q_C step_0) (q_C_type step_0) (q_o step_0);
                     (R, Q) = create_mutate_qr K (create_copy K W_i_G_i);
                     W_i_o_i = mutate_apply_qt K R Q W_i_o_i;
                     R = mutate_triu K R;
                     m0 = create_trisolve K ''U'' R W_i_o_i;
                     RT = create_transpose K R;
                     RTR = create_multiply K RT R;
                     P0 = create_inverse K RTR
                 in elements_v[0 := (elements_v ! 0)\<lparr>e_state := m0, e_covariance := P0\<rparr>]
               else elements_v);
            F_i = q_F equation;
            c_i = q_c equation;
            K_i = covariance_matrix_explicit K (q_K equation) (q_K_type equation);
            K_i =
              (if i = 1 then
                 let F_iT = create_transpose K F_i;
                     P0 = e_covariance (elements_v ! 0);
                     FP0 = create_multiply K F_i P0;
                     FPFT = create_multiply K FP0 F_iT
                 in create_add K K_i FPFT
               else K_i);
            element = elements_v ! i
        in if q_o equation = None then
             let element = element\<lparr>e_Z := K_i\<rparr>;
                 element =
                   (if i = 1 then
                      let m0 = e_state (elements_v ! 0)
                      in element\<lparr>e_A := create_constant K n_i n_i 0, e_b := create_add K m0 c_i\<rparr>
                    else
                      element\<lparr>e_A := create_copy K F_i, e_b := create_copy K c_i\<rparr>)
             in elements_v[i := element\<lparr>e_e := None, e_J := None\<rparr>]
           else
             let G_i = q_G equation;
                 o_i = q_o equation;
                 C_i = covariance_matrix_explicit K (q_C equation) (q_C_type equation);
                 G_iT = create_transpose K G_i;
                 KGT = create_multiply K K_i G_iT;
                 GKGT = create_multiply K G_i KGT;
                 S = create_add K GKGT C_i;
                 ST = create_transpose K S;
                 G_i_trans_inv_S_T = create_mldivide K ST G_i;
                 G_i_trans_inv_S = create_transpose K G_i_trans_inv_S_T;
                 Kg = create_multiply K K_i G_i_trans_inv_S;
                 element =
                   (if i = 1 then
                      let m0 = e_state (elements_v ! 0);
                          F_im = create_multiply K F_i m0;
                          m1 = create_add K F_im c_i;
                          G_im = create_multiply K G_i m1;
                          o_G_im = create_subtract K o_i G_im;
                          K_o_G_im = create_multiply K Kg o_G_im;
                          KS = create_multiply K Kg S;
                          KT = create_transpose K Kg;
                          KSKT = create_multiply K KS KT
                      in element
                           \<lparr>e_A := create_constant K n_i n_i 0,
                            e_b := create_add K m1 K_o_G_im,
                            e_Z := create_subtract K K_i KSKT\<rparr>
                    else
                      let GF = create_multiply K G_i F_i;
                          KGF = create_multiply K Kg GF;
                          G_ic = create_multiply K G_i c_i;
                          o_G_ic = create_subtract K o_i G_ic;
                          K_o_G_ic = create_multiply K Kg o_G_ic;
                          KG = create_multiply K Kg G_i;
                          KGK_i = create_multiply K KG K_i
                      in element
                           \<lparr>e_A := create_subtract K F_i KGF,
                            e_b := create_add K c_i K_o_G_ic,
                            e_Z := create_subtract K K_i KGK_i\<rparr>);
                 G_ic = create_multiply K G_i c_i;
                 o_G_ic = create_subtract K o_i G_ic;
                 FT = create_transpose K F_i;
                 FTG = create_multiply K FT G_i_trans_inv_S;
                 GF = create_multiply K G_i F_i
             in elements_v[i := element
                  \<lparr>e_e := create_multiply K FTG o_G_ic, e_J := create_multiply K FTG GF\<rparr>])"

definition build_smoothing_element_new ::
  "'a::zero pointer_kernel \<Rightarrow> 'a element list \<Rightarrow> nat \<Rightarrow> nat \<Rightarrow> 'a element list" where
  "build_smoothing_element_new K elements_v n i =
     (let step_i = elements_v ! i in
      if Suc i = n then
        let ni = e_dimension step_i
        in elements_v[i := step_i
             \<lparr>e_E := create_constant K ni ni 0,
              e_g := create_copy K (e_state step_i),
              e_L := create_copy K (e_covariance step_i)\<rparr>]
      else
        let x = e_state step_i;
            P = covariance_matrix_explicit K (e_covariance step_i) (CHR ''C'');
            step_ip1 = elements_v ! (i + 1);
            F = e_F step_ip1;
            Q = covariance_matrix_explicit K (e_K step_ip1) (e_K_type step_ip1);
            c = e_c step_ip1;
            FT = create_transpose K F;
            PFT = create_multiply K P FT;
            FPFT = create_multiply K F PFT;
            FPFT_Q = create_add K FPFT Q;
            PFT_T = create_transpose K PFT;
            FPFT_Q_T = create_transpose K FPFT_Q;
            E_T = create_mldivide K FPFT_Q_T PFT_T;
            E = create_transpose K E_T;
            Fx = create_multiply K F x;
            Fx_c = create_add K Fx c;
            E_Fx_c = create_multiply K E Fx_c;
            EF = create_multiply K E F;
            EFP = create_multiply K EF P
        in elements_v[i := step_i
             \<lparr>e_E := E, e_g := create_subtract K x E_Fx_c, e_L := create_subtract K P EFP\<rparr>])"

text \<open>The loops over a range of indices.\<close>

definition build_filtering_elements_new ::
  "'a::zero pointer_kernel \<Rightarrow> 'a equations list \<Rightarrow> 'a element list \<Rightarrow> nat \<Rightarrow> nat \<Rightarrow> nat \<Rightarrow>
     'a element list" where
  "build_filtering_elements_new K equations elements_v l start end =
     fold (\<lambda>j elements_v. build_filtering_element_new K equations elements_v j) [start..<end] elements_v"

definition build_smoothing_elements_new ::
  "'a::zero pointer_kernel \<Rightarrow> 'a element list \<Rightarrow> nat \<Rightarrow> nat \<Rightarrow> nat \<Rightarrow> 'a element list" where
  "build_smoothing_elements_new K elements_v l start end =
     fold (\<lambda>j elements_v. build_smoothing_element_new K elements_v l j) [start..<end] elements_v"

text \<open>
  The two combiners. A null argument is the identity of the scan; otherwise the
  result is a new element, created blank and given \<open>A, b, Z, e, J\<close> (filtering) or
  \<open>E, g, L\<close> (smoothing).
\<close>

definition filteringAssociativeOperation ::
  "'a pointer_kernel \<Rightarrow> 'a element option \<Rightarrow> 'a element option \<Rightarrow> 'a element option" where
  "filteringAssociativeOperation K si_v sj_v =
     (case si_v of
        None \<Rightarrow> sj_v
      | Some si \<Rightarrow>
          (case sj_v of
             None \<Rightarrow> si_v
           | Some sj \<Rightarrow>
               let ni = rows_of K (e_b si);
                   eye_ni = create_identity K ni ni;
                   siZ_sjJ = create_multiply K (e_Z si) (e_J sj);
                   eye_ni_plus_siZ_sjJ = create_add K eye_ni siZ_sjJ;
                   AT = create_transpose K (e_A sj);
                   other_T = create_transpose K eye_ni_plus_siZ_sjJ;
                   XT = create_mldivide K other_T AT;
                   X = create_transpose K XT;
                   sjJ_siZ = create_multiply K (e_J sj) (e_Z si);
                   eye_ni_plus_sjJ_siZ = create_add K eye_ni sjJ_siZ;
                   other_T = create_transpose K eye_ni_plus_sjJ_siZ;
                   YT = create_mldivide K other_T (e_A si);
                   Y = create_transpose K YT;
                   XA = create_multiply K X (e_A si);
                   siZ_sj_e = create_multiply K (e_Z si) (e_e sj);
                   siZ_sj_e_plus_si_b = create_add K siZ_sj_e (e_b si);
                   X_siZ_sj_e_plus_si_b = create_multiply K X siZ_sj_e_plus_si_b;
                   X_siZ = create_multiply K X (e_Z si);
                   A_jT = create_transpose K (e_A sj);
                   X_siZ_AT = create_multiply K X_siZ A_jT;
                   sjJ_si_b = create_multiply K (e_J sj) (e_b si);
                   sj_e_minus_sjJ_si_b = create_subtract K (e_e sj) sjJ_si_b;
                   Y_sj_e_minus_sjJ_si_b = create_multiply K Y sj_e_minus_sjJ_si_b;
                   sjJ_siA = create_multiply K (e_J sj) (e_A si);
                   Y_sjJ_siA = create_multiply K Y sjJ_siA
               in Some (element_create
                    \<lparr>e_A := XA,
                     e_b := create_add K X_siZ_sj_e_plus_si_b (e_b sj),
                     e_Z := create_add K X_siZ_AT (e_Z sj),
                     e_e := create_add K Y_sj_e_minus_sjJ_si_b (e_e si),
                     e_J := create_add K Y_sjJ_siA (e_J si)\<rparr>)))"

definition smoothingAssociativeOperation ::
  "'a pointer_kernel \<Rightarrow> 'a element option \<Rightarrow> 'a element option \<Rightarrow> 'a element option" where
  "smoothingAssociativeOperation K si_v sj_v =
     (case si_v of
        None \<Rightarrow> sj_v
      | Some si \<Rightarrow>
          (case sj_v of
             None \<Rightarrow> si_v
           | Some sj \<Rightarrow>
               let E = create_multiply K (e_E sj) (e_E si);
                   Eg = create_multiply K (e_E sj) (e_g si);
                   ET = create_transpose K (e_E sj);
                   EL = create_multiply K (e_E sj) (e_L si);
                   ELT = create_multiply K EL ET
               in Some (element_create
                    \<lparr>e_E := E,
                     e_g := create_add K Eg (e_g sj),
                     e_L := create_add K ELT (e_L sj)\<rparr>)))"

text \<open>
  Modelled from the spec: \<^verbatim>\<open>prefix_sums_pointers\<close> is not defined in the sources. It
  is the "inclusive \<^verbatim>\<open>prefix_scan\<close> with a user-supplied associative combiner" and
  stride \<open>+1\<close> or \<open>-1\<close>: "element at output position \<open>k\<close> equals
  \<open>input[0] \<oplus> input[1] \<oplus> \<dots> \<oplus> input[k]\<close> (left-folded)", starting from the null
  identity. With stride \<open>-1\<close> the input is taken from its last element to its first,
  and output position \<open>k\<close> is the sum down to input \<open>length - 1 - k\<close>: this is the
  order in which \<^verbatim>\<open>parallel_scan_c\<close> stores its sums and in which
  \<^verbatim>\<open>smoothed_to_state_new\<close> reads them (position \<open>l - 1 - j\<close> for step \<open>j\<close>).
\<close>

fun inclusive_scan ::
  "('e option \<Rightarrow> 'e option \<Rightarrow> 'e option) \<Rightarrow> 'e option \<Rightarrow> 'e list \<Rightarrow> 'e option list" where
  "inclusive_scan f temp [] = []"
| "inclusive_scan f temp (x # xs) = (let temp = f temp (Some x) in temp # inclusive_scan f temp xs)"

definition prefix_sums_pointers ::
  "('e option \<Rightarrow> 'e option \<Rightarrow> 'e option) \<Rightarrow> 'e list \<Rightarrow> int \<Rightarrow> 'e option list" where
  "prefix_sums_pointers f input stride =
     (if stride = - 1 then inclusive_scan f None (rev input) else inclusive_scan f None input)"

text \<open>
  Writing the scans back. An entry of \<open>filtered\<close> or \<open>smoothed\<close> is a pointer to an
  element; reading through a null entry does not return.
\<close>

fun filtered_to_state_loop ::
  "'a pointer_kernel \<Rightarrow> 'a element option list \<Rightarrow> nat list \<Rightarrow> 'a element list \<Rightarrow>
     'a element list option" where
  "filtered_to_state_loop K filtered [] elements_v = Some elements_v"
| "filtered_to_state_loop K filtered (j # js) elements_v = do {
     filtered_i \<leftarrow> filtered ! (j - 1);
     filtered_to_state_loop K filtered js
       (elements_v[j := (elements_v ! j)
          \<lparr>e_state := create_copy K (e_b filtered_i),
           e_covariance := create_copy K (e_Z filtered_i)\<rparr>])
   }"

definition filtered_to_state_new ::
  "'a pointer_kernel \<Rightarrow> 'a element list \<Rightarrow> 'a element option list \<Rightarrow> nat \<Rightarrow> nat \<Rightarrow> nat \<Rightarrow>
     'a element list option" where
  "filtered_to_state_new K elements_v filtered l start end =
     filtered_to_state_loop K filtered [start + 1..<end + 1] elements_v"

fun smoothed_to_state_loop ::
  "'a pointer_kernel \<Rightarrow> 'a element option list \<Rightarrow> nat \<Rightarrow> nat list \<Rightarrow> 'a equations list \<Rightarrow>
     'a equations list option" where
  "smoothed_to_state_loop K smoothed l [] equations = Some equations"
| "smoothed_to_state_loop K smoothed l (j # js) equations = do {
     smoothed_i \<leftarrow> smoothed ! (l - 2 - j + 1);
     smoothed_to_state_loop K smoothed l js
       (equations[j := (equations ! j)
          \<lparr>q_state := create_copy K (e_g smoothed_i),
           q_covariance := create_copy K (e_L smoothed_i),
           q_covariance_type := CHR ''C''\<rparr>])
   }"

definition smoothed_to_state_new ::
  "'a pointer_kernel \<Rightarrow> 'a equations list \<Rightarrow> 'a element option list \<Rightarrow> nat \<Rightarrow> nat \<Rightarrow> nat \<Rightarrow>
     'a equations list option" where
  "smoothed_to_state_new K equations smoothed l start end =
     smoothed_to_state_loop K smoothed l [start..<end] equations"

text \<open>
  \<^verbatim>\<open>kalman_smooth_associative\<close>, with the serial \<^verbatim>\<open>foreach_in_range\<close>, which calls its
  function once on the whole range. \<open>associative_filtered\<close> is its first part, up to
  the scan of the filtering elements; it is a definition of its own so that the
  last filtered element can be named. The function is called with \<open>l\<close> the number
  of the equations, at least \<open>2\<close>.
\<close>

definition associative_filtered ::
  "'a::zero pointer_kernel \<Rightarrow> 'a equations list \<Rightarrow> nat \<Rightarrow> 'a element list \<times> 'a element option list"
  where
  "associative_filtered K equations l =
     (let elements_v = elements_init l;
          elements_v = build_filtering_elements_new K equations elements_v l 0 l;
          filtered = prefix_sums_pointers (filteringAssociativeOperation K) (drop 1 elements_v) 1
      in (elements_v, filtered))"

definition kalman_smooth_associative ::
  "'a::zero pointer_kernel \<Rightarrow> 'a equations list \<Rightarrow> nat \<Rightarrow> 'a equations list option" where
  "kalman_smooth_associative K equations l = do {
     let (elements_v, filtered) = associative_filtered K equations l;
     elements_v \<leftarrow> filtered_to_state_new K elements_v filtered l 0 (l - 1);
     filtered_last \<leftarrow> filtered ! (l - 2);
     let equations = equations[l - 1 := (equations ! (l - 1))
       \<lparr>q_state := create_copy K (e_b filtered_last),
        q_covariance := create_copy K (e_L filtered_last),
        q_covariance_type := CHR ''C''\<rparr>];
     let elements_v = build_smoothing_elements_new K elements_v l 0 l;
     let smoothed = prefix_sums_pointers (smoothingAssociativeOperation K) elements_v (- 1);
     smoothed_to_state_new K equations smoothed l 0 (l - 1)
   }"

section \<open>Predicates on the log\<close>

text \<open>
  The step numbers of a log are its logical indices: the element at position \<open>j\<close>
  carries the number \<open>first + j\<close>. \<^verbatim>\<open>kalman_evolve\<close> numbers a step one above the last
  step of the log and \<^verbatim>\<open>kalman_observe\<close> appends it, so the logs the engine builds
  are of this kind.
\<close>

definition log_indexed :: "'a step_t farray \<Rightarrow> bool" where
  "log_indexed a =
     (map step (contents a) = map (\<lambda>j. first a + int j) [0..<length (contents a)])"

text \<open>
  A step is ready for smoothing when it has its blocks \<open>Rdiag\<close> and \<open>y\<close>, and
  \<open>Rsupdiag\<close> unless it is the last step of the log.
\<close>

fun smooth_ready :: "'a step_t list \<Rightarrow> bool" where
  "smooth_ready [] = True"
| "smooth_ready (i # later) =
     (Rdiag i \<noteq> None \<and> y i \<noteq> None \<and> (later = [] \<or> Rsupdiag i \<noteq> None) \<and> smooth_ready later)"

text \<open>
  The state pass as the spec words it: for the latest step the right-hand side is
  \<open>y[last]\<close>, otherwise \<open>y[i] - Rsupdiag[i] \<cdot> state[i+1]\<close> (the product
  accumulated by \<^verbatim>\<open>matrix_mutate_gemm\<close> with factors \<open>- 1\<close> and \<open>1\<close>), and in both
  cases \<open>state[i]\<close> is the triangular solve of \<open>Rdiag[i]\<close> against it.
\<close>

definition smoothed_rhs ::
  "'a::{one,uminus} kernel \<Rightarrow> 'a matrix \<Rightarrow> 'a matrix \<Rightarrow> 'a matrix \<Rightarrow> 'a matrix" where
  "smoothed_rhs K yv Rs next_state = matrix_mutate_gemm K (- 1) Rs next_state 1 yv"

definition triangular_solve :: "'a kernel \<Rightarrow> 'a matrix \<Rightarrow> 'a matrix \<Rightarrow> 'a matrix" where
  "triangular_solve K R v = dtrtrs K R v"

fun smoothed_states :: "'a::{one,uminus} kernel \<Rightarrow> 'a step_t list \<Rightarrow> bool" where
  "smoothed_states K [] = True"
| "smoothed_states K [i] =
     (case (Rdiag i, y i) of
        (Some Rd, Some yv) \<Rightarrow> state i = Some (triangular_solve K Rd yv)
      | _ \<Rightarrow> False)"
| "smoothed_states K (i # ipo # later) =
     (smoothed_states K (ipo # later) \<and>
      (case (Rdiag i, y i, Rsupdiag i, state ipo) of
         (Some Rd, Some yv, Some Rs, Some next_state) \<Rightarrow>
           state i = Some (triangular_solve K Rd (smoothed_rhs K yv Rs next_state))
       | _ \<Rightarrow> False))"

text \<open>
  The sealed blocks of a step, which smoothing reads and does not write.
\<close>

definition sealed_blocks ::
  "'a step_t \<Rightarrow> 'a matrix option \<times> 'a matrix option \<times> 'a matrix option" where
  "sealed_blocks s = (Rdiag s, Rsupdiag s, y s)"

text \<open>
  A determined step (\<open>Rdiag\<close> non-null with \<open>n_i\<close> rows) has an upper triangular
  \<open>Rdiag\<close>; a filter is triangular when all the steps of its log are, and its
  current step too.
\<close>

definition determined_triangular :: "'a::zero step_t \<Rightarrow> bool" where
  "determined_triangular s =
     (case Rdiag s of
        None \<Rightarrow> True
      | Some R \<Rightarrow> int (matrix_rows R) = dimension s \<longrightarrow> upper_triangular R)"

definition triangular_log :: "'a::zero kalman_t \<Rightarrow> bool" where
  "triangular_log kalman =
     ((\<forall>s \<in> set (contents (steps kalman)). determined_triangular s) \<and>
      (case current kalman of None \<Rightarrow> True | Some c \<Rightarrow> determined_triangular c))"

text \<open>
  The block that \<^verbatim>\<open>kalman_observe\<close> stacks for a step of dimension \<open>n_i\<close> has \<open>n_i\<close>
  columns when the caller's matrices have the dimensions of the observation
  equation \<open>o_i = G_i u_i + \<delta>_i\<close>.
\<close>

definition observe_block_fits ::
  "'a::{zero,one,times} kernel \<Rightarrow> 'a kalman_t \<Rightarrow> 'a matrix option \<Rightarrow> 'a matrix option \<Rightarrow>
     'a matrix option \<Rightarrow> char \<Rightarrow> bool" where
  "observe_block_fits K kalman G_i o_i C_i C_type =
     (case (current kalman, observe_weigh K G_i o_i C_i C_type) of
        (Some c, Some (W_i_G_i, _)) \<Rightarrow>
          (case matrix_create_vconcat (Rbar c) W_i_G_i of
             Some A \<Rightarrow> int (matrix_cols A) = dimension c
           | None \<Rightarrow> True)
      | _ \<Rightarrow> True)"

text \<open>The step that \<^verbatim>\<open>kalman_rollback\<close> reopens: its sealed blocks are released.\<close>

definition reopened :: "'a step_t \<Rightarrow> 'a step_t" where
  "reopened s =
     s\<lparr>Rdiag := None, Rsupdiag := None, y := None, state := None, covariance := None\<rparr>"

section \<open>A stand-in kernel and sample runs\<close>

text \<open>
  To run the engine on concrete calls the numerical routines are replaced by
  stand-ins over the integers: the product and the solve return their right-hand
  side, the factorisation leaves the matrix as it is, and \<open>NaN\<close> is the number \<open>- 1\<close>.
\<close>

definition example_kernel :: "int kernel" where
  "example_kernel =
     \<lparr>NaN = - 1,
      dgemm = (\<lambda>alpha A B beta C. B),
      dtrtrs = (\<lambda>A B. B),
      dgeqrf = (\<lambda>A. (A, A)),
      dormqr = (\<lambda>A TAU C. C),
      dscal = (\<lambda>A s. A)\<rparr>"

definition I2 :: "int matrix" where
  "I2 = Matrix 2 2 [[1, 0], [0, 1]]"

definition Z2 :: "int matrix" where
  "Z2 = Matrix 2 2 [[0, 0], [0, 0]]"

definition o2 :: "int matrix" where
  "o2 = Matrix 2 1 [[3], [4]]"

text \<open>
  The states of a run of two steps of dimension \<open>2\<close>: after \<^verbatim>\<open>evolve(2)\<close> on the empty
  filter, after the first \<^verbatim>\<open>observe\<close>, after the second \<^verbatim>\<open>evolve\<close>, after the second
  \<^verbatim>\<open>observe\<close>.
\<close>

definition open_step0 :: "int step_t" where
  "open_step0 = step_create\<lparr>step := 0, dimension := 2\<rparr>"

definition sealed_step0 :: "int step_t" where
  "sealed_step0 =
     \<lparr>step = 0, dimension = 2, Rdiag = Some I2, Rsupdiag = None, y = Some o2,
      Rbar = None, ybar = None, state = Some o2, covariance = Some I2\<rparr>"

definition linked_step0 :: "int step_t" where
  "linked_step0 = sealed_step0\<lparr>Rsupdiag := Some Z2\<rparr>"

definition open_step1 :: "int step_t" where
  "open_step1 = step_create\<lparr>step := 1, dimension := 2, Rbar := Some I2, ybar := Some o2\<rparr>"

definition sealed_step1 :: "int step_t" where
  "sealed_step1 =
     open_step1\<lparr>Rdiag := Some I2, y := Some o2, state := Some o2, covariance := Some I2\<rparr>"

definition run_open0 :: "int kalman_t" where
  "run_open0 = \<lparr>steps = farray_create, current = Some open_step0\<rparr>"

definition run_one :: "int kalman_t" where
  "run_one = \<lparr>steps = \<lparr>first = 0, contents = [sealed_step0]\<rparr>, current = Some sealed_step0\<rparr>"

definition run_open1 :: "int kalman_t" where
  "run_open1 = \<lparr>steps = \<lparr>first = 0, contents = [linked_step0]\<rparr>, current = Some open_step1\<rparr>"

definition run_two :: "int kalman_t" where
  "run_two =
     \<lparr>steps = \<lparr>first = 0, contents = [linked_step0, sealed_step1]\<rparr>,
      current = Some sealed_step1\<rparr>"

text \<open>The two-step run after \<^verbatim>\<open>kalman_smooth\<close>.\<close>

definition smoothed_two :: "int kalman_t" where
  "smoothed_two =
     run_two\<lparr>steps := \<lparr>first = 0,
       contents = [linked_step0\<lparr>covariance := Some Z2\<rparr>, sealed_step1]\<rparr>\<rparr>"


text \<open>
  A stand-in for the MATLAB routines, and the MATLAB filter after one observed step.
\<close>

definition example_matlab :: "(int, unit) matlab_kernel" where
  "example_matlab =
     \<lparr>weigh = (\<lambda>K A. A), qr = (\<lambda>A. (A, A)), ctranspose_mtimes = (\<lambda>Q B. B)\<rparr>"

definition matlab_one :: "int UltimateKalman" where
  "matlab_one = \<lparr>steps_m = [sealed_step0], current_m = None\<rparr>"

definition matlab_open1 :: "int UltimateKalman" where
  "matlab_open1 = \<lparr>steps_m = [linked_step0], current_m = Some open_step1\<rparr>"

text \<open>
  A stand-in for the kernel of the associative smoother: a copy is the matrix
  itself and the copy of a null pointer is null, the sum and the difference
  return their first argument, the product and the left division their second,
  transposing and inverting leave the matrix as it is, and weighing and the
  explicit covariance leave their matrix as it is.
\<close>

definition example_pointer_kernel :: "int pointer_kernel" where
  "example_pointer_kernel =
     \<lparr>create_copy = (\<lambda>A. A),
      create_constant = (\<lambda>r c v. Some (matrix_create_constant (nat r) (nat c) v)),
      create_identity = (\<lambda>r c. Some (Matrix (nat r) (nat c)
        (map (\<lambda>i. map (\<lambda>j. if i = j then 1 else 0) [0..<nat c]) [0..<nat r]))),
      create_transpose = (\<lambda>A. A),
      create_multiply = (\<lambda>A B. B),
      create_add = (\<lambda>A B. A),
      create_subtract = (\<lambda>A B. A),
      create_mldivide = (\<lambda>A B. B),
      create_inverse = (\<lambda>A. A),
      create_mutate_qr = (\<lambda>A. (A, A)),
      mutate_apply_qt = (\<lambda>R Q C. C),
      mutate_triu = (\<lambda>A. A),
      create_trisolve = (\<lambda>t R B. B),
      covariance_matrix_weigh = (\<lambda>C t A. A),
      covariance_matrix_explicit = (\<lambda>C t. C),
      rows_of = (\<lambda>A. case A of None \<Rightarrow> 0 | Some M \<Rightarrow> int (matrix_rows M))\<rparr>"

text \<open>
  The equations of two steps of dimension \<open>2\<close>, both observed, and what the
  smoother leaves in them.
\<close>

definition equation0 :: "int equations" where
  "equation0 =
     \<lparr>q_dimension = 2, q_H = None, q_F = None, q_c = None, q_K = None,
      q_K_type = char_of (0 :: nat), q_G = Some I2, q_o = Some o2, q_C = Some I2,
      q_C_type = CHR ''W'', q_state = None, q_covariance = None,
      q_covariance_type = char_of (0 :: nat)\<rparr>"

definition equation1 :: "int equations" where
  "equation1 =
     \<lparr>q_dimension = 2, q_H = Some I2, q_F = Some I2, q_c = Some (Matrix 2 1 [[0], [0]]),
      q_K = Some I2, q_K_type = CHR ''W'', q_G = Some I2, q_o = Some o2, q_C = Some I2,
      q_C_type = CHR ''W'', q_state = None, q_covariance = None,
      q_covariance_type = char_of (0 :: nat)\<rparr>"

definition filtered1 :: "int element" where
  "filtered1 =
     element_create
       \<lparr>e_step := 1, e_dimension := 2, e_K_type := CHR ''W'', e_F := Some I2, e_K := Some I2,
        e_c := Some (Matrix 2 1 [[0], [0]]), e_Z := Some I2, e_A := Some Z2, e_b := Some o2,
        e_e := Some o2, e_J := Some I2\<rparr>"

definition smoothed_equations2 :: "int equations list" where
  "smoothed_equations2 =
     [equation0\<lparr>q_state := Some o2, q_covariance := Some I2, q_covariance_type := CHR ''C''\<rparr>,
      equation1\<lparr>q_state := Some o2, q_covariance := None, q_covariance_type := CHR ''C''\<rparr>]"

section \<open>Properties of the sequential engine\<close>

text \<open>The sample states are the states of the run they are named after.\<close>

lemmas sample_defs = run_open0_def run_one_def run_open1_def run_two_def open_step0_def
  sealed_step0_def linked_step0_def open_step1_def sealed_step1_def I2_def Z2_def o2_def

lemma run_open0: "kalman_evolve example_kernel kalman_create 2 None None None None (CHR ''W'') = Some run_open0"
  by code_simp
lemma run_one: "kalman_observe example_kernel run_open0 (Some I2) (Some o2) (Some I2) (CHR ''W'') = Some run_one"
  by code_simp
lemma run_open1: "kalman_evolve example_kernel run_one 2 (Some I2) (Some I2) (Some o2) (Some I2) (CHR ''W'') = Some run_open1"
  by code_simp
lemma run_two: "kalman_observe example_kernel run_open1 (Some I2) (Some o2) (Some I2) (CHR ''W'') = Some run_two"
  by code_simp

subsection \<open>Sealing a step\<close>

lemma vconcat_eq_None [simp]:
  "matrix_create_vconcat a b = None \<longleftrightarrow> a = None \<and> b = None"
  by (cases a; cases b) simp_all

lemma observe_weigh_None:
  "observe_weigh K G_i o_i C_i C_type = Some (WG, Wo) \<Longrightarrow> WG = None \<longleftrightarrow> o_i = None"
  by (cases o_i) (auto simp: observe_weigh_def bind_eq_Some_conv)

lemma observe_seal_None:
  "observe_seal K c None y_p = Some c"
  by (simp add: observe_seal_def)

lemma observe_seal_Some:
  assumes "observe_seal K c (Some A) y_p = Some s"
  shows "\<exists>Rd. Rdiag s = Some Rd \<and> covariance s = Some (matrix_create_copy Rd) \<and>
         step s = step c \<and> dimension s = dimension c \<and>
         (if int (matrix_rows Rd) = dimension c
          then \<exists>yv. y s = Some yv \<and> state s = Some (triangular_solve K Rd yv)
          else state s = Some (matrix_create_constant (nat (dimension c)) 1 (NaN K)))"
proof -
  from assms obtain Rd y_p' st where
    "observe_solve K (dimension c) Rd y_p' = Some st"
    "s = c\<lparr>Rdiag := Some Rd, y := y_p', state := Some st,
             covariance := Some (matrix_create_copy Rd)\<rparr>"
    by (auto simp: observe_seal_def Let_def bind_eq_Some_conv)
  then show ?thesis
    by (auto simp: observe_solve_def bind_eq_Some_conv triangular_solve_def
        matrix_create_trisolve_def split: if_splits)
qed

lemma kalman_observe_SomeD:
  assumes "kalman_observe K kalman G_i o_i C_i C_type = Some kalman'"
  obtains c WG Wo s where "current kalman = Some c"
    and "observe_weigh K G_i o_i C_i C_type = Some (WG, Wo)"
    and "observe_seal K c (matrix_create_vconcat (Rbar c) WG)
              (matrix_create_vconcat (ybar c) Wo) = Some s"
    and "kalman' = kalman\<lparr>steps := farray_append (steps kalman) s, current := Some s\<rparr>"
  using assms
  by (auto simp: kalman_observe_def Let_def bind_eq_Some_conv)

text \<open>
  Claim C1, amended. A call of \<^verbatim>\<open>kalman_observe\<close> that returns appends the current
  step to the log in every case. When the step has an \<open>Rbar\<close> block or an
  observation is given, the sealed \<open>Rdiag\<close> is non-null, the covariance is a copy of
  it (of type \<^verbatim>\<open>'W'\<close>), and the state is the triangular solve of \<open>Rdiag\<close> against \<open>y\<close>
  if \<open>Rdiag\<close> has exactly \<open>n_i\<close> rows, and an \<open>n_i\<close>-by-\<open>1\<close> matrix of \<open>NaN\<close> otherwise.
  When the step has neither, it is appended as \<^verbatim>\<open>kalman_evolve\<close> left it: no block,
  no state and no covariance are set.
\<close>

theorem kalman_observe_seals:
  assumes "kalman_observe K kalman G_i o_i C_i C_type = Some kalman'"
  shows "\<exists>c s. current kalman = Some c \<and> steps kalman' = farray_append (steps kalman) s \<and>
     current kalman' = Some s \<and> step s = step c \<and> dimension s = dimension c \<and>
     kalman_covariance_type kalman' (step s) = CHR ''W'' \<and>
     (if Rbar c = None \<and> o_i = None then s = c
      else \<exists>Rd. Rdiag s = Some Rd \<and> covariance s = Some (matrix_create_copy Rd) \<and>
         (if int (matrix_rows Rd) = dimension c
          then \<exists>yv. y s = Some yv \<and> state s = Some (triangular_solve K Rd yv)
          else state s = Some (matrix_create_constant (nat (dimension c)) 1 (NaN K))))"
proof -
  from assms obtain c WG Wo s where c: "current kalman = Some c"
    and w: "observe_weigh K G_i o_i C_i C_type = Some (WG, Wo)"
    and s: "observe_seal K c (matrix_create_vconcat (Rbar c) WG)
              (matrix_create_vconcat (ybar c) Wo) = Some s"
    and k': "kalman' = kalman\<lparr>steps := farray_append (steps kalman) s, current := Some s\<rparr>"
    by (rule kalman_observe_SomeD)
  have none: "WG = None \<longleftrightarrow> o_i = None"
    using w by (rule observe_weigh_None)
  show ?thesis
  proof (cases "matrix_create_vconcat (Rbar c) WG")
    case None
    with s have "s = c" by (simp add: observe_seal_None)
    moreover from None none have "Rbar c = None \<and> o_i = None" by simp
    ultimately show ?thesis using c k' by (simp add: kalman_covariance_type_def)
  next
    case (Some A)
    then have "\<not> (Rbar c = None \<and> o_i = None)"
      using none by (cases "Rbar c"; cases WG) simp_all
    moreover from s Some have "observe_seal K c (Some A)
        (matrix_create_vconcat (ybar c) Wo) = Some s" by simp
    note observe_seal_Some [OF this]
    then obtain Rd where "Rdiag s = Some Rd \<and> covariance s = Some (matrix_create_copy Rd) \<and>
         step s = step c \<and> dimension s = dimension c \<and>
         (if int (matrix_rows Rd) = dimension c
          then \<exists>yv. y s = Some yv \<and> state s = Some (triangular_solve K Rd yv)
          else state s = Some (matrix_create_constant (nat (dimension c)) 1 (NaN K)))" ..
    ultimately show ?thesis using c k'
      by (auto simp: kalman_covariance_type_def)
  qed
qed

text \<open>The second \<^verbatim>\<open>observe\<close> of the sample run seals a determined step.\<close>

theorem kalman_observe_seals_witness:
  "kalman_observe example_kernel run_open1 (Some I2) (Some o2) (Some I2) (CHR ''W'') = Some run_two \<and>
   current run_open1 = Some open_step1 \<and>
   steps run_two = farray_append (steps run_open1) sealed_step1 \<and>
   Rdiag sealed_step1 = Some I2 \<and> int (matrix_rows I2) = dimension open_step1 \<and>
   y sealed_step1 = Some o2 \<and>
   state sealed_step1 = Some (triangular_solve example_kernel I2 o2) \<and>
   covariance sealed_step1 = Some (matrix_create_copy I2)"
proof -
  have h: "kalman_observe example_kernel run_open1 (Some I2) (Some o2) (Some I2) (CHR ''W'')
      = Some run_two" by code_simp
  from kalman_observe_seals [OF h] show ?thesis
    using h by (auto simp: sample_defs farray_append_def step_create_def)
qed

text \<open>
  Claim C1 as stated fails on a first step that is not observed: the block is null,
  so \<open>Rdiag\<close> does not have \<open>n_i = 2\<close> rows, and the state stays null instead of
  becoming a column of \<open>NaN\<close>.
\<close>

theorem unobserved_first_step_counterexample:
  "kalman_observe example_kernel run_open0 None None None (CHR ''W'') =
     Some \<lparr>steps = \<lparr>first = 0, contents = [open_step0]\<rparr>, current = Some open_step0\<rparr> \<and>
   Rdiag open_step0 = None \<and> dimension open_step0 = 2 \<and>
   state open_step0 \<noteq> Some (matrix_create_constant 2 1 (NaN example_kernel))"
  by code_simp

subsection \<open>Smoothing\<close>

lemma smoothed_states_state:
  "smoothed_states K (i # later) \<Longrightarrow> state i \<noteq> None"
  by (cases later) (auto split: option.splits)

text \<open>One round of the state loop, with the kernel calls named as the spec names them.\<close>

lemma smooth_states_Cons:
  "smooth_states K (i # later) =
     (case smooth_states K later of
        None \<Rightarrow> None
      | Some later' \<Rightarrow>
          (case (y i, Rdiag i) of
             (Some yv, Some Rd) \<Rightarrow>
               (case later' of
                  [] \<Rightarrow> Some (i\<lparr>state := Some (triangular_solve K Rd yv)\<rparr> # later')
                | ipo # _ \<Rightarrow>
                    (case (Rsupdiag i, state ipo) of
                       (Some Rs, Some next_state) \<Rightarrow>
                         Some (i\<lparr>state := Some (triangular_solve K Rd
                                 (smoothed_rhs K yv Rs next_state))\<rparr> # later')
                     | _ \<Rightarrow> None))
           | _ \<Rightarrow> None))"
  by (simp add: Let_def matrix_mutate_copy_def triangular_solve_def
      smoothed_rhs_def matrix_mutate_trisolve_def split: list.splits option.splits)

lemma smooth_states_frame:
  "smooth_states K es = Some es' \<Longrightarrow> list_all2 (\<lambda>s' s. sealed_blocks s' = sealed_blocks s) es' es"
proof (induction es arbitrary: es')
  case Nil
  then show ?case by simp
next
  case (Cons i later)
  then show ?case
    by (auto simp: smooth_states_Cons sealed_blocks_def simp del: smooth_states.simps
        split: option.splits list.splits)
qed

lemma smooth_states_smoothed:
  "smooth_states K es = Some es' \<Longrightarrow> smoothed_states K es'"
proof (induction es arbitrary: es')
  case Nil
  then show ?case by simp
next
  case (Cons i later)
  then show ?case
    by (auto simp: smooth_states_Cons simp del: smooth_states.simps
        split: option.splits list.splits)
qed

lemma smoothed_states_fixed:
  "smoothed_states K es \<Longrightarrow> smooth_states K es = Some es"
proof (induction K es rule: smoothed_states.induct)
  case (1 K)
  then show ?case by simp
next
  case (2 K i)
  then show ?case
    by (auto simp: smooth_states_Cons simp del: smooth_states.simps(2) split: option.splits)
next
  case (3 K i ipo later)
  then show ?case
    by (auto simp: smooth_states_Cons [of K i] simp del: smooth_states.simps(2)
        split: option.splits)
qed

lemma smooth_states_ready:
  "smooth_ready es \<Longrightarrow> \<exists>es'. smooth_states K es = Some es'"
proof (induction es)
  case Nil
  then show ?case by simp
next
  case (Cons i later)
  then obtain later' where l: "smooth_states K later = Some later'" by auto
  have len: "later' = [] \<longleftrightarrow> later = []"
    using smooth_states_frame [OF l] by (cases later'; cases later) simp_all
  from Cons.prems obtain Rd yv where b: "Rdiag i = Some Rd" "y i = Some yv" by auto
  show ?case
  proof (cases later')
    case Nil
    with l b show ?thesis by (simp add: smooth_states_Cons del: smooth_states.simps)
  next
    case (Cons ipo rest)
    with smooth_states_smoothed [OF l] have "state ipo \<noteq> None"
      by (simp add: smoothed_states_state)
    moreover from Cons len Cons.prems have "Rsupdiag i \<noteq> None" by auto
    ultimately show ?thesis using l b Cons
      by (auto simp: smooth_states_Cons simp del: smooth_states.simps)
  qed
qed


lemma smooth_covariance_frame [simp]:
  "smooth_covariance K (i\<lparr>covariance := c\<rparr>) R n_ipo = smooth_covariance K i R n_ipo"
  by (simp add: smooth_covariance_def)

lemma smooth_covariance_ready:
  "Rdiag i \<noteq> None \<Longrightarrow> \<exists>r. smooth_covariance K i R n_ipo = Some r"
  by (cases "Rsupdiag i") (auto simp: smooth_covariance_def Let_def split: prod.splits)

lemma smooth_covariances_ConsD:
  assumes "smooth_covariances K (i # later) = Some (es', carried)"
  shows "\<exists>later' c0. smooth_covariances K later = Some (later', c0) \<and>
     (case c0 of
        None \<Rightarrow> \<exists>Rd. Rdiag i = Some Rd \<and> es' = i # later' \<and> carried = Some (Rd, matrix_rows Rd)
      | Some (R, n_ipo) \<Rightarrow> \<exists>cov n_i. smooth_covariance K i R n_ipo = Some (cov, n_i) \<and>
          es' = i\<lparr>covariance := Some cov\<rparr> # later' \<and> carried = Some (cov, n_i))"
proof -
  from assms obtain later' c0 where l: "smooth_covariances K later = Some (later', c0)"
    by (cases "smooth_covariances K later") auto
  show ?thesis
  proof (cases c0)
    case None
    with assms l show ?thesis by (cases "Rdiag i") simp_all
  next
    case (Some p)
    obtain R n_ipo where p: "p = (R, n_ipo)" by (cases p)
    with assms l Some show ?thesis
      by (cases "smooth_covariance K i R n_ipo") auto
  qed
qed


lemma smooth_covariances_frame:
  "smooth_covariances K es = Some (es', carried) \<Longrightarrow>
     list_all2 (\<lambda>s' s. sealed_blocks s' = sealed_blocks s \<and> state s' = state s) es' es"
proof (induction es arbitrary: es' carried)
  case Nil
  then show ?case by simp
next
  case (Cons i later)
  from smooth_covariances_ConsD [OF Cons.prems] obtain later' c0 where
    l: "smooth_covariances K later = Some (later', c0)" and
    c: "case c0 of
        None \<Rightarrow> \<exists>Rd. Rdiag i = Some Rd \<and> es' = i # later' \<and> carried = Some (Rd, matrix_rows Rd)
      | Some (R, n_ipo) \<Rightarrow> \<exists>cov n_i. smooth_covariance K i R n_ipo = Some (cov, n_i) \<and>
          es' = i\<lparr>covariance := Some cov\<rparr> # later' \<and> carried = Some (cov, n_i)"
    by blast
  from Cons.IH [OF l] c show ?case
    by (cases c0) (auto simp: sealed_blocks_def)
qed

lemma smooth_covariances_fixed:
  "smooth_covariances K es = Some (es', carried) \<Longrightarrow>
     smooth_covariances K es' = Some (es', carried)"
proof (induction es arbitrary: es' carried)
  case Nil
  then show ?case by simp
next
  case (Cons i later)
  from smooth_covariances_ConsD [OF Cons.prems] obtain later' c0 where
    l: "smooth_covariances K later = Some (later', c0)" and
    c: "case c0 of
        None \<Rightarrow> \<exists>Rd. Rdiag i = Some Rd \<and> es' = i # later' \<and> carried = Some (Rd, matrix_rows Rd)
      | Some (R, n_ipo) \<Rightarrow> \<exists>cov n_i. smooth_covariance K i R n_ipo = Some (cov, n_i) \<and>
          es' = i\<lparr>covariance := Some cov\<rparr> # later' \<and> carried = Some (cov, n_i)"
    by blast
  from Cons.IH [OF l] c show ?case
    by (cases c0) auto
qed

lemma smooth_covariances_ready:
  "list_all (\<lambda>s. Rdiag s \<noteq> None) es \<Longrightarrow> \<exists>r. smooth_covariances K es = Some r"
proof (induction es)
  case Nil
  then show ?case by simp
next
  case (Cons i later)
  then obtain later' carried where l: "smooth_covariances K later = Some (later', carried)"
    by auto
  from Cons.prems have Rd: "Rdiag i \<noteq> None" by simp
  show ?case
  proof (cases carried)
    case None
    with l Rd show ?thesis by auto
  next
    case (Some p)
    obtain R n_ipo where p: "p = (R, n_ipo)" by (cases p)
    from smooth_covariance_ready [OF Rd, of K R n_ipo] l Some p show ?thesis
      by auto
  qed
qed

lemma smoothed_states_covariance_frame:
  "list_all2 (\<lambda>s' s. sealed_blocks s' = sealed_blocks s \<and> state s' = state s) es' es \<Longrightarrow>
     smoothed_states K es' = smoothed_states K es"
proof (induction K es arbitrary: es' rule: smoothed_states.induct)
  case (1 K)
  then show ?case by simp
next
  case (2 K i)
  then show ?case by (auto simp: list_all2_Cons2 sealed_blocks_def split: option.splits)
next
  case (3 K i ipo later)
  from "3.prems" obtain i' rest' where e: "es' = i' # rest'"
    and i: "sealed_blocks i' = sealed_blocks i" "state i' = state i"
    and l: "list_all2 (\<lambda>s' s. sealed_blocks s' = sealed_blocks s \<and> state s' = state s)
              rest' (ipo # later)"
    by (auto simp: list_all2_Cons2)
  from l obtain ipo' later' where r: "rest' = ipo' # later'"
    and ipo: "state ipo' = state ipo"
    by (auto simp: list_all2_Cons2)
  from "3.IH" [OF l] e r i ipo show ?case
    by (simp add: sealed_blocks_def split: option.splits)
qed

lemma sealed_blocks_frame:
  "list_all2 (\<lambda>s' s. sealed_blocks s' = sealed_blocks s) es' es \<Longrightarrow>
     map sealed_blocks es' = map sealed_blocks es"
  by (induction es' es rule: list_all2_induct) auto

lemma sealed_blocks_covariance_frame:
  "list_all2 (\<lambda>s' s. sealed_blocks s' = sealed_blocks s \<and> state s' = state s) es' es \<Longrightarrow>
     map sealed_blocks es' = map sealed_blocks es"
  by (induction es' es rule: list_all2_induct) auto

lemma smooth_ready_Rdiag:
  "smooth_ready es \<Longrightarrow> list_all (\<lambda>s. Rdiag s \<noteq> None) es"
  by (induction es) auto

lemma Rdiag_state_frame:
  "list_all2 (\<lambda>s' s. sealed_blocks s' = sealed_blocks s) es' es \<Longrightarrow>
     list_all (\<lambda>s. Rdiag s \<noteq> None) es \<Longrightarrow> list_all (\<lambda>s. Rdiag s \<noteq> None) es'"
  by (induction es' es rule: list_all2_induct) (auto simp: sealed_blocks_def)

lemma kalman_smooth_SomeD:
  assumes "kalman_smooth K kalman = Some kalman'" and "contents (steps kalman) \<noteq> []"
  obtains es1 es2 carried where "smooth_states K (contents (steps kalman)) = Some es1"
    and "smooth_covariances K es1 = Some (es2, carried)"
    and "kalman' = kalman\<lparr>steps := (steps kalman)\<lparr>contents := es2\<rparr>\<rparr>"
  using assms by (auto simp: kalman_smooth_def farray_size_def bind_eq_Some_conv)

lemma smoothed_states_last:
  "smoothed_states K es \<Longrightarrow> es \<noteq> [] \<Longrightarrow>
     \<exists>Rd yv. Rdiag (last es) = Some Rd \<and> y (last es) = Some yv \<and>
       state (last es) = Some (triangular_solve K Rd yv)"
proof (induction K es rule: smoothed_states.induct)
  case (1 K)
  then show ?case by simp
next
  case (2 K i)
  then show ?case by (auto split: option.splits)
next
  case (3 K i ipo later)
  then show ?case by simp
qed

lemma smoothed_states_nth:
  "smoothed_states K es \<Longrightarrow> Suc j < length es \<Longrightarrow>
     \<exists>Rd yv Rs next_state. Rdiag (es ! j) = Some Rd \<and> y (es ! j) = Some yv \<and>
       Rsupdiag (es ! j) = Some Rs \<and> state (es ! Suc j) = Some next_state \<and>
       state (es ! j) = Some (triangular_solve K Rd (smoothed_rhs K yv Rs next_state))"
proof (induction K es arbitrary: j rule: smoothed_states.induct)
  case (1 K)
  then show ?case by simp
next
  case (2 K i)
  then show ?case by simp
next
  case (3 K i ipo later)
  show ?case
  proof (cases j)
    case 0
    with "3.prems" show ?thesis by (auto split: option.splits)
  next
    case (Suc j')
    with "3.prems" "3.IH" [of j'] show ?thesis by simp
  qed
qed

lemma kalman_smooth_ready:
  assumes "smooth_ready (contents (steps kalman))"
  shows "\<exists>kalman'. kalman_smooth K kalman = Some kalman' \<and>
     map sealed_blocks (contents (steps kalman')) = map sealed_blocks (contents (steps kalman)) \<and>
     smoothed_states K (contents (steps kalman'))"
proof (cases "contents (steps kalman) = []")
  case True
  then show ?thesis by (simp add: kalman_smooth_def farray_size_def)
next
  case False
  from smooth_states_ready [OF assms] obtain es1 where
    1: "smooth_states K (contents (steps kalman)) = Some es1" by blast
  have b1: "map sealed_blocks es1 = map sealed_blocks (contents (steps kalman))"
    using smooth_states_frame [OF 1] by (rule sealed_blocks_frame)
  have "list_all (\<lambda>s. Rdiag s \<noteq> None) es1"
    using smooth_states_frame [OF 1] smooth_ready_Rdiag [OF assms] by (rule Rdiag_state_frame)
  from smooth_covariances_ready [OF this] obtain es2 carried where
    2: "smooth_covariances K es1 = Some (es2, carried)" by (metis surj_pair)
  have "smoothed_states K es2"
    using smoothed_states_covariance_frame [OF smooth_covariances_frame [OF 2]]
      smooth_states_smoothed [OF 1] by simp
  moreover have "map sealed_blocks es2 = map sealed_blocks (contents (steps kalman))"
    using sealed_blocks_covariance_frame [OF smooth_covariances_frame [OF 2]] b1 by simp
  moreover have "kalman_smooth K kalman = Some (kalman\<lparr>steps := (steps kalman)\<lparr>contents := es2\<rparr>\<rparr>)"
    using False 1 2 by (simp add: kalman_smooth_def farray_size_def)
  ultimately show ?thesis by simp
qed

text \<open>
  Claim C2. On a non-empty log whose steps have their blocks, \<^verbatim>\<open>kalman_smooth\<close>
  returns, leaves the blocks as they were, sets the state of the last step to the
  triangular solve of its \<open>Rdiag\<close> against its \<open>y\<close>, and sets the state of every step
  \<open>i\<close> before the last to the triangular solve of \<open>Rdiag[i]\<close> against
  \<open>y[i] - Rsupdiag[i] \<cdot> state[i+1]\<close>, where \<open>state[i+1]\<close> is the new state of the next
  step.
\<close>

theorem kalman_smooth_states:
  assumes "smooth_ready (contents (steps kalman))" and "contents (steps kalman) \<noteq> []"
  shows "\<exists>kalman' es'. kalman_smooth K kalman = Some kalman' \<and> es' = contents (steps kalman') \<and>
     map sealed_blocks es' = map sealed_blocks (contents (steps kalman)) \<and>
     (\<exists>Rd yv. Rdiag (last es') = Some Rd \<and> y (last es') = Some yv \<and>
        state (last es') = Some (triangular_solve K Rd yv)) \<and>
     (\<forall>i. Suc i < length es' \<longrightarrow>
        (\<exists>Rd yv Rs next_state. Rdiag (es' ! i) = Some Rd \<and> y (es' ! i) = Some yv \<and>
           Rsupdiag (es' ! i) = Some Rs \<and> state (es' ! Suc i) = Some next_state \<and>
           state (es' ! i) = Some (triangular_solve K Rd (smoothed_rhs K yv Rs next_state))))"
proof -
  from kalman_smooth_ready [OF assms(1)] obtain kalman' where
    k: "kalman_smooth K kalman = Some kalman'"
    and b: "map sealed_blocks (contents (steps kalman')) = map sealed_blocks (contents (steps kalman))"
    and s: "smoothed_states K (contents (steps kalman'))" by blast
  from b assms(2) have ne: "contents (steps kalman') \<noteq> []" by auto
  from smoothed_states_last [OF s ne] smoothed_states_nth [OF s] k b show ?thesis
    by blast
qed

text \<open>The two-step sample run is ready for smoothing, and smoothing it gives \<open>smoothed_two\<close>.\<close>

theorem kalman_smooth_states_witness:
  "smooth_ready (contents (steps run_two)) \<and> contents (steps run_two) \<noteq> [] \<and>
   kalman_smooth example_kernel run_two = Some smoothed_two \<and>
   (\<exists>kalman' es'. kalman_smooth example_kernel run_two = Some kalman' \<and>
     es' = contents (steps kalman') \<and>
     map sealed_blocks es' = map sealed_blocks (contents (steps run_two)) \<and>
     (\<exists>Rd yv. Rdiag (last es') = Some Rd \<and> y (last es') = Some yv \<and>
        state (last es') = Some (triangular_solve example_kernel Rd yv)) \<and>
     (\<forall>i. Suc i < length es' \<longrightarrow>
        (\<exists>Rd yv Rs next_state. Rdiag (es' ! i) = Some Rd \<and> y (es' ! i) = Some yv \<and>
           Rsupdiag (es' ! i) = Some Rs \<and> state (es' ! Suc i) = Some next_state \<and>
           state (es' ! i) =
             Some (triangular_solve example_kernel Rd
                    (smoothed_rhs example_kernel yv Rs next_state)))))"
proof -
  have h: "smooth_ready (contents (steps run_two))" "contents (steps run_two) \<noteq> []"
    by code_simp+
  have e: "kalman_smooth example_kernel run_two = Some smoothed_two" by code_simp
  from kalman_smooth_states [OF h, of example_kernel] h e show ?thesis
    by blast
qed

text \<open>
  Claim C5. \<^verbatim>\<open>kalman_smooth\<close> is idempotent: a second call right after a call that
  returned gives the same filter, so every state and covariance is what the first
  call produced.
\<close>

theorem kalman_smooth_idempotent:
  assumes "kalman_smooth K kalman = Some kalman'"
  shows "kalman_smooth K kalman' = Some kalman'"
proof (cases "contents (steps kalman) = []")
  case True
  with assms show ?thesis by (simp add: kalman_smooth_def farray_size_def)
next
  case False
  from assms False obtain es1 es2 carried where
    1: "smooth_states K (contents (steps kalman)) = Some es1"
    and 2: "smooth_covariances K es1 = Some (es2, carried)"
    and k': "kalman' = kalman\<lparr>steps := (steps kalman)\<lparr>contents := es2\<rparr>\<rparr>"
    by (rule kalman_smooth_SomeD)
  have "smoothed_states K es2"
    using smoothed_states_covariance_frame [OF smooth_covariances_frame [OF 2]]
      smooth_states_smoothed [OF 1] by simp
  then have "smooth_states K es2 = Some es2" by (rule smoothed_states_fixed)
  moreover have "smooth_covariances K es2 = Some (es2, carried)"
    using 2 by (rule smooth_covariances_fixed)
  ultimately show ?thesis using k'
    by (simp add: kalman_smooth_def farray_size_def)
qed


text \<open>Smoothing the smoothed two-step run changes nothing.\<close>

theorem kalman_smooth_idempotent_witness:
  "kalman_smooth example_kernel run_two = Some smoothed_two \<and>
   kalman_smooth example_kernel smoothed_two = Some smoothed_two"
proof -
  have h: "kalman_smooth example_kernel run_two = Some smoothed_two" by code_simp
  from kalman_smooth_idempotent [OF h] h show ?thesis by simp
qed

subsection \<open>The log under rollback and forget\<close>

lemma log_indexed_iff:
  "log_indexed a \<longleftrightarrow> (\<forall>j<length (contents a). step (contents a ! j) = first a + int j)"
  unfolding log_indexed_def by (subst list_eq_iff_nth_eq) simp

lemma log_indexed_nth:
  "log_indexed a \<Longrightarrow> j < length (contents a) \<Longrightarrow> step (contents a ! j) = first a + int j"
  by (simp add: log_indexed_iff)

lemma log_indexed_last:
  assumes "log_indexed a" and "contents a \<noteq> []"
  shows "step (last (contents a)) = first a + int (length (contents a)) - 1"
proof -
  from assms(2) have "length (contents a) - 1 < length (contents a)" by simp
  from log_indexed_nth [OF assms(1) this] assms(2) show ?thesis
    by (simp add: last_conv_nth) (cases "contents a", simp_all)
qed

lemma log_indexed_butlast:
  "log_indexed a \<Longrightarrow> log_indexed (a\<lparr>contents := butlast (contents a)\<rparr>)"
  by (simp add: log_indexed_iff nth_butlast)

lemma farray_get_nth:
  "farray_get a i =
     (if first a \<le> i \<and> i < first a + int (length (contents a))
      then Some (contents a ! nat (i - first a)) else None)"
  by (auto simp: farray_get_def farray_first_index_def farray_last_index_def farray_size_def)

lemma kalman_earliest_indexed:
  "log_indexed (steps kalman) \<Longrightarrow> contents (steps kalman) \<noteq> [] \<Longrightarrow>
     kalman_earliest kalman = farray_first_index (steps kalman)"
  using log_indexed_nth [of "steps kalman" 0]
  by (simp add: kalman_earliest_def farray_size_def farray_get_first_def farray_get_nth
      farray_first_index_def)

lemma kalman_latest_indexed:
  "log_indexed (steps kalman) \<Longrightarrow> contents (steps kalman) \<noteq> [] \<Longrightarrow>
     kalman_latest kalman = farray_last_index (steps kalman)"
  using log_indexed_last [of "steps kalman"]
  by (simp add: kalman_latest_def farray_size_def farray_get_last_def farray_get_nth
      farray_last_index_def last_conv_nth nat_diff_distrib')

lemma rollback_loop_indexed:
  "log_indexed (steps kalman) \<Longrightarrow> first (steps kalman) \<le> si \<Longrightarrow>
   si \<le> farray_last_index (steps kalman) \<Longrightarrow>
   rollback_loop kalman si =
     Some (kalman\<lparr>steps := (steps kalman)
             \<lparr>contents := take (nat (si - first (steps kalman))) (contents (steps kalman))\<rparr>,
           current := Some (reopened (contents (steps kalman) ! nat (si - first (steps kalman))))\<rparr>)"
proof (induction kalman si rule: rollback_loop.induct)
  case (1 kalman si)
  let ?a = "steps kalman"
  let ?es = "contents ?a"
  let ?n = "nat (si - first ?a)"
  from "1.prems" have ne: "?es \<noteq> []"
    by (auto simp: farray_last_index_def farray_size_def)
  from "1.prems" have n: "?n < length ?es"
    by (auto simp: farray_last_index_def farray_size_def)
  have last: "step (last ?es) = first ?a + int (length ?es) - 1"
    using "1.prems"(1) ne by (rule log_indexed_last)
  have drop: "farray_drop_last ?a = Some (last ?es, ?a\<lparr>contents := butlast ?es\<rparr>)"
    using ne by (simp add: farray_drop_last_def)
  show ?case
  proof (cases "step (last ?es) = si")
    case True
    with last n "1.prems"(2) have "?n = length ?es - 1" by linarith
    then have "take ?n ?es = butlast ?es" "?es ! ?n = last ?es"
      using ne by (simp_all add: butlast_conv_take last_conv_nth)
    with True drop show ?thesis
      by (subst rollback_loop.simps) (simp add: reopened_def)
  next
    case False
    with last "1.prems" have gt: "step (last ?es) > si"
      by (simp add: farray_last_index_def farray_size_def)
    let ?k = "kalman\<lparr>steps := ?a\<lparr>contents := butlast ?es\<rparr>\<rparr>"
    from gt last "1.prems"(2) have n': "?n < length ?es - 1" by linarith
    have "rollback_loop ?k si =
        Some (kalman\<lparr>steps := ?a\<lparr>contents := take ?n (butlast ?es)\<rparr>,
           current := Some (reopened (butlast ?es ! ?n))\<rparr>)"
    proof -
      have "log_indexed (steps ?k)"
        using log_indexed_butlast [OF "1.prems"(1)] by simp
      moreover have "first (steps ?k) \<le> si" using "1.prems" by simp
      moreover have "si \<le> farray_last_index (steps ?k)"
        using gt last ne by (simp add: farray_last_index_def farray_size_def)
      ultimately show ?thesis
        using "1.IH" [OF drop refl refl refl gt] False by simp
    qed
    moreover have "take ?n (butlast ?es) = take ?n ?es" "butlast ?es ! ?n = ?es ! ?n"
      using n' by (simp_all add: take_butlast nth_butlast)
    ultimately show ?thesis using drop gt False
      by (subst rollback_loop.simps) simp
  qed
qed


lemma forget_loop_drops:
  "farray_first_index a \<le> si + 1 \<Longrightarrow> si \<le> farray_last_index a \<Longrightarrow>
   forget_loop a si =
     Some (a\<lparr>first := si + 1, contents := drop (nat (si + 1 - first a)) (contents a)\<rparr>)"
proof (induction a si rule: forget_loop.induct)
  case (1 a si)
  show ?case
  proof (cases "farray_first_index a \<le> si")
    case False
    with "1.prems" have "first a = si + 1" by (simp add: farray_first_index_def)
    with False show ?thesis by (subst forget_loop.simps) simp
  next
    case True
    with "1.prems" obtain e es where es: "contents a = e # es"
      by (cases "contents a") (auto simp: farray_first_index_def farray_last_index_def
          farray_size_def)
    let ?a' = "a\<lparr>first := first a + 1, contents := es\<rparr>"
    have drop: "farray_drop_first a = Some (e, ?a')"
      using es by (simp add: farray_drop_first_def)
    have "forget_loop ?a' si =
        Some (?a'\<lparr>first := si + 1, contents := drop (nat (si + 1 - first ?a')) (contents ?a')\<rparr>)"
    proof (rule "1.IH" [OF True drop refl])
      show "farray_first_index ?a' \<le> si + 1"
        using True by (simp add: farray_first_index_def)
      show "si \<le> farray_last_index ?a'"
        using "1.prems" es by (simp add: farray_last_index_def farray_size_def)
    qed
    moreover have "drop (nat (si + 1 - first a)) (e # es) = drop (nat (si + 1 - (first a + 1))) es"
    proof -
      from True have "nat (si + 1 - first a) = Suc (nat (si + 1 - (first a + 1)))"
        by (simp add: farray_first_index_def)
      then show ?thesis by simp
    qed
    ultimately show ?thesis using True drop es
      by (subst forget_loop.simps) simp
  qed
qed

lemma farray_get_drop:
  assumes "first a \<le> s + 1" and "s + 1 \<le> first a + int (length (contents a))"
  shows "farray_get (a\<lparr>first := s + 1, contents := drop (nat (s + 1 - first a)) (contents a)\<rparr>) j =
     (if j \<le> s then None else farray_get a j)"
proof (cases "s < j \<and> j < first a + int (length (contents a))")
  case False
  with assms show ?thesis
    by (auto simp: farray_get_nth)
next
  case True
  with assms have "nat (s + 1 - first a) + nat (j - (s + 1)) = nat (j - first a)"
    by linarith
  with True assms show ?thesis
    by (auto simp: farray_get_nth)
qed

lemma kalman_forget_inside:
  assumes "s = (if si < 0 then farray_last_index (steps kalman) - 1 else si)"
    and "farray_first_index (steps kalman) \<le> s" and "s \<le> farray_last_index (steps kalman) - 1"
  shows "kalman_forget kalman si =
     Some (kalman\<lparr>steps := (steps kalman)\<lparr>first := s + 1,
       contents := drop (nat (s + 1 - first (steps kalman))) (contents (steps kalman))\<rparr>\<rparr>)"
proof -
  from assms(2,3) have size: "farray_size (steps kalman) \<noteq> 0"
    by (auto simp: farray_last_index_def farray_first_index_def)
  from assms(2,3) have "forget_loop (steps kalman) s =
      Some ((steps kalman)\<lparr>first := s + 1,
        contents := drop (nat (s + 1 - first (steps kalman))) (contents (steps kalman))\<rparr>)"
    by (intro forget_loop_drops) auto
  with assms size show ?thesis
    by (simp add: kalman_forget_def Let_def)
qed

lemma kalman_forget_outside:
  assumes "s = (if si < 0 then farray_last_index (steps kalman) - 1 else si)"
    and "\<not> (farray_first_index (steps kalman) \<le> s \<and> s \<le> farray_last_index (steps kalman) - 1)"
  shows "kalman_forget kalman si = Some kalman"
  using assms by (auto simp: kalman_forget_def Let_def)

text \<open>
  Claim C4, amended. \<^verbatim>\<open>kalman_forget\<close> always returns. Let \<open>s\<close> be its argument, or
  the index before the last one when the argument is negative. When \<open>s\<close> lies
  between the first index and the index before the last, the call removes exactly
  the steps with index at most \<open>s\<close>: the log then starts at \<open>s + 1\<close>, ends where
  it ended, and keeps every later step. In every other case (an empty log, \<open>s\<close>
  below the first index, \<open>s\<close> at or above the last index) the filter is unchanged.
  So a negative argument leaves the last step only, and the last step is never
  removed.
\<close>

theorem kalman_forget_cases:
  "\<exists>kalman'. kalman_forget kalman si = Some kalman' \<and> current kalman' = current kalman \<and>
     (let a = steps kalman;
          s = (if si < 0 then farray_last_index a - 1 else si)
      in if farray_first_index a \<le> s \<and> s \<le> farray_last_index a - 1
         then farray_first_index (steps kalman') = s + 1 \<and>
              farray_last_index (steps kalman') = farray_last_index a \<and>
              (\<forall>j. farray_get (steps kalman') j = (if j \<le> s then None else farray_get a j))
         else kalman' = kalman)"
proof -
  define s where "s = (if si < 0 then farray_last_index (steps kalman) - 1 else si)"
  show ?thesis
  proof (cases "farray_first_index (steps kalman) \<le> s \<and> s \<le> farray_last_index (steps kalman) - 1")
    case False
    with kalman_forget_outside [OF s_def False] show ?thesis
      by (simp add: Let_def s_def [symmetric])
  next
    case True
    then have k: "kalman_forget kalman si =
      Some (kalman\<lparr>steps := (steps kalman)\<lparr>first := s + 1,
       contents := drop (nat (s + 1 - first (steps kalman))) (contents (steps kalman))\<rparr>\<rparr>)"
      using kalman_forget_inside [OF s_def] by simp
    from True have r: "first (steps kalman) \<le> s + 1"
      "s + 1 \<le> first (steps kalman) + int (length (contents (steps kalman)))"
      by (simp_all add: farray_last_index_def farray_first_index_def farray_size_def)
    from r have "farray_last_index ((steps kalman)\<lparr>first := s + 1,
       contents := drop (nat (s + 1 - first (steps kalman))) (contents (steps kalman))\<rparr>) =
       farray_last_index (steps kalman)"
      by (simp add: farray_last_index_def farray_size_def)
    with k True farray_get_drop [OF r] show ?thesis
      by (simp add: Let_def s_def [symmetric] farray_first_index_def)
  qed
qed


text \<open>
  Claim C4 as stated fails at the last index: on the two-step run, whose steps are
  \<open>0\<close> and \<open>1\<close>, \<^verbatim>\<open>forget(1)\<close> does not remove step \<open>0\<close>; it returns at once ("don't
  delete last step") and the log is unchanged.
\<close>

theorem forget_latest_counterexample:
  "kalman_earliest run_two = 0 \<and> kalman_latest run_two = 1 \<and>
   kalman_forget run_two 1 = Some run_two \<and>
   farray_get (steps run_two) 0 = Some linked_step0"
  by code_simp

lemma kalman_rollback_indexed:
  assumes "log_indexed (steps kalman)" and "contents (steps kalman) \<noteq> []"
    and "kalman_earliest kalman \<le> si" and "si \<le> kalman_latest kalman"
  shows "kalman_rollback kalman si =
     Some (kalman\<lparr>steps := (steps kalman)
             \<lparr>contents := take (nat (si - first (steps kalman))) (contents (steps kalman))\<rparr>,
           current := Some (reopened (contents (steps kalman) ! nat (si - first (steps kalman))))\<rparr>)"
    and "first (steps kalman) \<le> si" and "si < first (steps kalman) + int (length (contents (steps kalman)))"
proof -
  from assms have r: "farray_first_index (steps kalman) \<le> si" "si \<le> farray_last_index (steps kalman)"
    by (simp_all add: kalman_earliest_indexed kalman_latest_indexed)
  then show "first (steps kalman) \<le> si"
    "si < first (steps kalman) + int (length (contents (steps kalman)))"
    by (simp_all add: farray_first_index_def farray_last_index_def farray_size_def)
  from r assms(2) have "kalman_rollback kalman si = rollback_loop kalman si"
    by (simp add: kalman_rollback_def farray_size_def)
  with rollback_loop_indexed [OF assms(1), of si] r show "kalman_rollback kalman si =
     Some (kalman\<lparr>steps := (steps kalman)
             \<lparr>contents := take (nat (si - first (steps kalman))) (contents (steps kalman))\<rparr>,
           current := Some (reopened (contents (steps kalman) ! nat (si - first (steps kalman))))\<rparr>)"
    by (simp add: farray_first_index_def)
qed

lemma farray_get_take:
  assumes "first a \<le> si"
  shows "farray_get (a\<lparr>contents := take (nat (si - first a)) (contents a)\<rparr>) j =
     (if j < si then farray_get a j else None)"
  using assms by (auto simp: farray_get_nth)










lemma kalman_latest_append:
  "kalman_latest (kalman\<lparr>steps := farray_append a s, current := c\<rparr>) = step s"
  by (simp add: kalman_latest_def farray_size_def farray_append_def farray_get_last_def
      farray_get_nth farray_last_index_def)

lemma observe_seal_step:
  "observe_seal K c A_p y_p = Some s \<Longrightarrow> step s = step c"
  by (cases A_p) (auto simp: observe_seal_def Let_def bind_eq_Some_conv)

lemma kalman_observe_unobserved:
  assumes "current kalman = Some c" and "Rbar c = None \<or> ybar c \<noteq> None"
  shows "kalman_observe K kalman None None None C_type \<noteq> None"
proof (cases "Rbar c")
  case None
  with assms(1) show ?thesis
    by (simp add: kalman_observe_def observe_weigh_def observe_seal_def)
next
  case (Some A)
  with assms(2) obtain yv where yv: "ybar c = Some yv" by auto
  have "observe_factor K (dimension c) (matrix_create_copy A) (Some (matrix_create_copy yv)) \<noteq> None"
    by (simp add: observe_factor_def Let_def split: prod.splits)
  then obtain Rd y_p where f: "observe_factor K (dimension c) (matrix_create_copy A)
      (Some (matrix_create_copy yv)) = Some (Rd, y_p)" by auto
  then have "y_p \<noteq> None"
    by (auto simp: observe_factor_def Let_def split: if_splits prod.splits)
  then have "observe_solve K (dimension c) Rd y_p \<noteq> None"
    by (auto simp: observe_solve_def)
  with f Some yv assms(1) show ?thesis
    by (auto simp: kalman_observe_def observe_weigh_def observe_seal_def Let_def)
qed

text \<open>
  Claim C10. After \<^verbatim>\<open>kalman_rollback\<close> to a step \<open>si\<close> of the log, the log no longer
  holds step \<open>si\<close>: \<^verbatim>\<open>kalman_latest\<close> is \<open>si - 1\<close>, and both \<^verbatim>\<open>kalman_earliest\<close> and
  \<^verbatim>\<open>kalman_latest\<close> are \<open>- 1\<close> when \<open>si\<close> was the earliest step. The step is the
  current step; every \<^verbatim>\<open>kalman_observe\<close> that returns appends it again, so that the
  latest step is \<open>si\<close>, and an \<^verbatim>\<open>observe\<close> without an observation does return when
  the step has \<open>ybar\<close> whenever it has \<open>Rbar\<close>.
\<close>

theorem kalman_rollback_latest:
  assumes "log_indexed (steps kalman)" and "contents (steps kalman) \<noteq> []"
    and "kalman_earliest kalman \<le> si" and "si \<le> kalman_latest kalman"
  shows "\<exists>kalman' c. kalman_rollback kalman si = Some kalman' \<and>
     kalman_latest kalman' = (if si = kalman_earliest kalman then - 1 else si - 1) \<and>
     kalman_earliest kalman' =
       (if si = kalman_earliest kalman then - 1 else kalman_earliest kalman) \<and>
     farray_get (steps kalman') si = None \<and>
     current kalman' = Some c \<and> step c = si \<and>
     (\<forall>K G_i o_i C_i C_type kalman''.
        kalman_observe K kalman' G_i o_i C_i C_type = Some kalman'' \<longrightarrow>
          kalman_latest kalman'' = si \<and>
          (\<exists>s. step s = si \<and> steps kalman'' = farray_append (steps kalman') s \<and>
               farray_get (steps kalman'') si = Some s)) \<and>
     (\<forall>K C_type. Rbar c = None \<or> ybar c \<noteq> None \<longrightarrow>
        kalman_observe K kalman' None None None C_type \<noteq> None)"
proof -
  note r = kalman_rollback_indexed [OF assms]
  let ?a = "steps kalman"
  let ?n = "nat (si - first ?a)"
  let ?c = "reopened (contents ?a ! ?n)"
  let ?a' = "?a\<lparr>contents := take ?n (contents ?a)\<rparr>"
  let ?k' = "kalman\<lparr>steps := ?a', current := Some ?c\<rparr>"
  from r(2,3) have n: "?n < length (contents ?a)" by simp
  from log_indexed_nth [OF assms(1) n] r(2) have c: "step ?c = si"
    by (simp add: reopened_def)
  have e: "kalman_earliest kalman = first ?a"
    using assms(1,2) by (simp add: kalman_earliest_indexed farray_first_index_def)
  have idx: "log_indexed ?a'"
    using assms(1) n by (simp add: log_indexed_iff)
  have len: "length (contents ?a') = ?n" using n by simp
  have latest: "kalman_latest ?k' = (if si = kalman_earliest kalman then - 1 else si - 1)"
  proof (cases "si = first ?a")
    case True
    then have "kalman_latest ?k' = - 1" by (simp add: kalman_latest_def farray_size_def)
    with True e show ?thesis by simp
  next
    case False
    with r(2) assms(2) have ne: "contents (steps ?k') \<noteq> []" using n by simp
    have "log_indexed (steps ?k')" using idx by simp
    from kalman_latest_indexed [OF this ne] False r(2) n show ?thesis
      by (simp add: e farray_last_index_def farray_size_def)
  qed
  have earliest: "kalman_earliest ?k' =
      (if si = kalman_earliest kalman then - 1 else kalman_earliest kalman)"
  proof (cases "si = first ?a")
    case True
    then have "kalman_earliest ?k' = - 1" by (simp add: kalman_earliest_def farray_size_def)
    with True e show ?thesis by simp
  next
    case False
    with r(2) assms(2) have ne: "contents (steps ?k') \<noteq> []" using n by simp
    have "log_indexed (steps ?k')" using idx by simp
    from kalman_earliest_indexed [OF this ne] False show ?thesis
      by (simp add: e farray_first_index_def)
  qed
  have gone: "farray_get (steps ?k') si = None"
    using farray_get_take [OF r(2), of si] by simp
  have obs: "kalman_latest kalman'' = si \<and>
          (\<exists>s. step s = si \<and> steps kalman'' = farray_append (steps ?k') s \<and>
               farray_get (steps kalman'') si = Some s)"
    if "kalman_observe K ?k' G_i o_i C_i C_type = Some kalman''"
    for K G_i o_i C_i C_type kalman''
  proof -
    from that obtain c0 WG Wo s where c0: "current ?k' = Some c0"
      and s: "observe_seal K c0 (matrix_create_vconcat (Rbar c0) WG)
              (matrix_create_vconcat (ybar c0) Wo) = Some s"
      and k'': "kalman'' = ?k'\<lparr>steps := farray_append (steps ?k') s, current := Some s\<rparr>"
      by (rule kalman_observe_SomeD)
    from c0 have "c0 = ?c" by simp
    with observe_seal_step [OF s] c have st: "step s = si" by simp
    have l: "kalman_latest kalman'' = step s"
      unfolding k'' by (rule kalman_latest_append)
    have a: "steps kalman'' = farray_append (steps ?k') s"
      using k'' by simp
    have "farray_get (farray_append ?a' s) si = Some s"
      using r(2) n by (simp add: farray_get_nth farray_append_def nth_append)
    with a have "farray_get (steps kalman'') si = Some s" by simp
    with l a st show ?thesis by blast
  qed
  have ret: "kalman_observe K ?k' None None None C_type \<noteq> None"
    if "Rbar ?c = None \<or> ybar ?c \<noteq> None" for K C_type
    using kalman_observe_unobserved [of ?k' ?c, OF _ that] by simp
  have cur: "current ?k' = Some ?c" by simp
  show ?thesis
  proof (rule exI [of _ ?k'], rule exI [of _ ?c], intro conjI allI impI)
    show "kalman_rollback kalman si = Some ?k'" by (rule r(1))
    show "kalman_latest ?k' = (if si = kalman_earliest kalman then - 1 else si - 1)"
      by (rule latest)
    show "kalman_earliest ?k' =
        (if si = kalman_earliest kalman then - 1 else kalman_earliest kalman)"
      by (rule earliest)
    show "farray_get (steps ?k') si = None" by (rule gone)
    show "current ?k' = Some ?c" by (rule cur)
    show "step ?c = si" by (rule c)
    show "kalman_latest kalman'' = si"
      if "kalman_observe K ?k' G_i o_i C_i C_type = Some kalman''"
      for K G_i o_i C_i C_type kalman''
      using obs [OF that] by simp
    show "\<exists>s. step s = si \<and> steps kalman'' = farray_append (steps ?k') s \<and>
               farray_get (steps kalman'') si = Some s"
      if "kalman_observe K ?k' G_i o_i C_i C_type = Some kalman''"
      for K G_i o_i C_i C_type kalman''
      using obs [OF that] by simp
    show "kalman_observe K ?k' None None None C_type \<noteq> None"
      if "Rbar ?c = None \<or> ybar ?c \<noteq> None" for K C_type
      using that by (rule ret)
  qed
qed

text \<open>The two-step run, rolled back to step \<open>1\<close> and observed again.\<close>

theorem kalman_rollback_latest_witness:
  "log_indexed (steps run_two) \<and> contents (steps run_two) \<noteq> [] \<and>
   kalman_earliest run_two \<le> 1 \<and> 1 \<le> kalman_latest run_two \<and>
   kalman_rollback run_two 1 = Some run_open1 \<and>
   kalman_latest run_open1 = 0 \<and> kalman_earliest run_open1 = 0 \<and>
   current run_open1 = Some open_step1 \<and> step open_step1 = 1 \<and>
   kalman_observe example_kernel run_open1 (Some I2) (Some o2) (Some I2) (CHR ''W'') = Some run_two \<and>
   kalman_latest run_two = 1"
proof -
  have h: "log_indexed (steps run_two)" "contents (steps run_two) \<noteq> []"
    "kalman_earliest run_two \<le> 1" "1 \<le> kalman_latest run_two"
    by code_simp+
  have e: "kalman_rollback run_two 1 = Some run_open1" "kalman_earliest run_two = 0"
    "current run_open1 = Some open_step1"
    "kalman_observe example_kernel run_open1 (Some I2) (Some o2) (Some I2) (CHR ''W'') = Some run_two"
    by code_simp+
  from kalman_rollback_latest [OF h] e h show ?thesis
    by auto
qed

subsection \<open>Upper triangular blocks\<close>

lemma upper_triangular_triu: "upper_triangular (matrix_mutate_triu A)"
  by (simp add: upper_triangular_def matrix_mutate_triu_def matrix_get_def)

lemma determined_triangular_reopened: "determined_triangular (reopened s)"
  by (simp add: determined_triangular_def reopened_def)

lemma evolve_seal_triangular:
  "evolve_seal K imo c A B yv = (imo', c') \<Longrightarrow>
     determined_triangular imo' \<and> Rdiag c' = Rdiag c"
  by (auto simp: evolve_seal_def Let_def case_prod_beta determined_triangular_def
      upper_triangular_triu split: if_splits)

lemma kalman_evolve_log:
  assumes "kalman_evolve K kalman n_i H_i F_i c_i K_i K_type = Some k'"
  shows "\<exists>c'. current k' = Some c' \<and> Rdiag c' = None \<and>
     (steps k' = steps kalman \<or>
      (\<exists>imo'. determined_triangular imo' \<and>
         contents (steps k') = butlast (contents (steps kalman)) @ [imo']))"
proof (cases "farray_size (steps kalman) = 0")
  case True
  with assms show ?thesis
    by (auto simp: kalman_evolve_def Let_def step_create_def)
next
  case False
  with assms obtain imo A B yv where
    k': "k' = kalman\<lparr>steps := (steps kalman)\<lparr>contents := butlast (contents (steps kalman)) @
             [fst (evolve_seal K imo (step_create\<lparr>dimension := n_i, step := step imo + 1\<rparr>) A B yv)]\<rparr>,
           current := Some (snd (evolve_seal K imo
             (step_create\<lparr>dimension := n_i, step := step imo + 1\<rparr>) A B yv))\<rparr>"
    by (auto simp: kalman_evolve_def Let_def bind_eq_Some_conv case_prod_beta)
  obtain imo' c' where
    e: "evolve_seal K imo (step_create\<lparr>dimension := n_i, step := step imo + 1\<rparr>) A B yv = (imo', c')"
    by (cases "evolve_seal K imo (step_create\<lparr>dimension := n_i, step := step imo + 1\<rparr>) A B yv")
  from evolve_seal_triangular [OF e] k' e show ?thesis
    by (auto simp: step_create_def)
qed

lemma observe_factor_triangular:
  assumes "observe_factor K n_i A y_p = Some (Rd, y_p')" and "int (matrix_cols A) = n_i"
    and "int (matrix_rows Rd) = n_i"
  shows "upper_triangular Rd"
  using assms
  by (auto simp: observe_factor_def Let_def bind_eq_Some_conv case_prod_beta
      upper_triangular_triu split: if_splits)

lemma observe_seal_triangular:
  assumes "observe_seal K c A_p y_p = Some s"
    and "determined_triangular c"
    and "case A_p of Some A \<Rightarrow> int (matrix_cols A) = dimension c | None \<Rightarrow> True"
  shows "determined_triangular s"
proof (cases A_p)
  case None
  with assms show ?thesis by (simp add: observe_seal_def)
next
  case (Some A)
  with assms(1) obtain Rd y_p' st where
    f: "observe_factor K (dimension c) A y_p = Some (Rd, y_p')"
    and s: "s = c\<lparr>Rdiag := Some Rd, y := y_p', state := Some st,
             covariance := Some (matrix_create_copy Rd)\<rparr>"
    by (auto simp: observe_seal_def Let_def bind_eq_Some_conv)
  from assms(3) Some have "int (matrix_cols A) = dimension c" by simp
  from observe_factor_triangular [OF f this] s show ?thesis
    by (simp add: determined_triangular_def)
qed

lemma smooth_states_dimension:
  "smooth_states K es = Some es' \<Longrightarrow>
     list_all2 (\<lambda>s' s. Rdiag s' = Rdiag s \<and> dimension s' = dimension s) es' es"
proof (induction es arbitrary: es')
  case Nil
  then show ?case by simp
next
  case (Cons i later)
  then show ?case
    by (auto simp: smooth_states_Cons simp del: smooth_states.simps
        split: option.splits list.splits)
qed

lemma smooth_covariances_dimension:
  "smooth_covariances K es = Some (es', carried) \<Longrightarrow>
     list_all2 (\<lambda>s' s. Rdiag s' = Rdiag s \<and> dimension s' = dimension s) es' es"
proof (induction es arbitrary: es' carried)
  case Nil
  then show ?case by simp
next
  case (Cons i later)
  from smooth_covariances_ConsD [OF Cons.prems] obtain later' c0 where
    l: "smooth_covariances K later = Some (later', c0)" and
    c: "case c0 of
        None \<Rightarrow> \<exists>Rd. Rdiag i = Some Rd \<and> es' = i # later' \<and> carried = Some (Rd, matrix_rows Rd)
      | Some (R, n_ipo) \<Rightarrow> \<exists>cov n_i. smooth_covariance K i R n_ipo = Some (cov, n_i) \<and>
          es' = i\<lparr>covariance := Some cov\<rparr> # later' \<and> carried = Some (cov, n_i)"
    by blast
  from Cons.IH [OF l] c show ?case
    by (cases c0) auto
qed

lemma determined_triangular_frame:
  "list_all2 (\<lambda>s' s. Rdiag s' = Rdiag s \<and> dimension s' = dimension s) es' es \<Longrightarrow>
     \<forall>s \<in> set es. determined_triangular s \<Longrightarrow> \<forall>s \<in> set es'. determined_triangular s"
  by (induction es' es rule: list_all2_induct)
    (auto simp: determined_triangular_def split: option.splits)

lemma rollback_loop_log:
  "rollback_loop kalman si = Some k' \<Longrightarrow>
     set (contents (steps k')) \<subseteq> set (contents (steps kalman)) \<and>
     (current k' = current kalman \<or> (\<exists>v. current k' = Some (reopened v)))"
proof (induction kalman si arbitrary: k' rule: rollback_loop.induct)
  case (1 kalman si)
  let ?es = "contents (steps kalman)"
  from "1.prems" have ne: "?es \<noteq> []"
    by (subst (asm) rollback_loop.simps) (auto simp: farray_drop_last_def split: if_splits)
  then have drop: "farray_drop_last (steps kalman) =
      Some (last ?es, (steps kalman)\<lparr>contents := butlast ?es\<rparr>)"
    by (simp add: farray_drop_last_def)
  let ?k = "kalman\<lparr>steps := (steps kalman)\<lparr>contents := butlast ?es\<rparr>\<rparr>"
  let ?kb = "if step (last ?es) = si then ?k\<lparr>current := Some (reopened (last ?es))\<rparr> else ?k"
  have sub: "set (butlast ?es) \<subseteq> set ?es"
    by (auto dest: in_set_butlastD)
  show ?case
  proof (cases "si < step (last ?es)")
    case True
    with "1.prems" drop have "rollback_loop ?k si = Some k'"
      by (subst (asm) rollback_loop.simps) (simp add: reopened_def Let_def)
    moreover from True have "?kb = ?k" by simp
    ultimately have "set (contents (steps k')) \<subseteq> set (contents (steps ?k)) \<and>
        (current k' = current ?k \<or> (\<exists>v. current k' = Some (reopened v)))"
      using "1.IH" [OF drop refl refl refl True, of k'] True by (simp add: reopened_def)
    with sub show ?thesis by auto
  next
    case False
    with "1.prems" drop have "k' = ?kb"
      by (subst (asm) rollback_loop.simps) (auto simp: reopened_def Let_def)
    with sub show ?thesis by auto
  qed
qed

lemma forget_loop_log:
  "forget_loop a si = Some a' \<Longrightarrow> set (contents a') \<subseteq> set (contents a)"
proof (induction a si arbitrary: a' rule: forget_loop.induct)
  case (1 a si)
  show ?case
  proof (cases "farray_first_index a \<le> si")
    case False
    with "1.prems" show ?thesis by (subst (asm) forget_loop.simps) simp
  next
    case True
    with "1.prems" obtain e es where es: "contents a = e # es"
      by (subst (asm) forget_loop.simps)
        (auto simp: farray_drop_first_def split: list.splits)
    let ?a' = "a\<lparr>first := first a + 1, contents := es\<rparr>"
    have drop: "farray_drop_first a = Some (e, ?a')"
      using es by (simp add: farray_drop_first_def)
    with "1.prems" True have "forget_loop ?a' si = Some a'"
      by (subst (asm) forget_loop.simps) simp
    from "1.IH" [OF True drop refl this] es show ?thesis by auto
  qed
qed


lemma triangular_evolve:
  assumes "triangular_log kalman"
    and "kalman_evolve K kalman n_i H_i F_i c_i K_i K_type = Some k'"
  shows "triangular_log k'"
proof -
  from kalman_evolve_log [OF assms(2)] obtain c' where c: "current k' = Some c'" "Rdiag c' = None"
    and l: "steps k' = steps kalman \<or>
      (\<exists>imo'. determined_triangular imo' \<and>
         contents (steps k') = butlast (contents (steps kalman)) @ [imo'])"
    by blast
  have "set (butlast (contents (steps kalman))) \<subseteq> set (contents (steps kalman))"
    by (auto dest: in_set_butlastD)
  with l assms(1) have "\<forall>s \<in> set (contents (steps k')). determined_triangular s"
    by (auto simp: triangular_log_def)
  with c show ?thesis
    by (simp add: triangular_log_def determined_triangular_def)
qed

lemma triangular_observe:
  assumes "triangular_log kalman"
    and "observe_block_fits K kalman G_i o_i C_i C_type"
    and "kalman_observe K kalman G_i o_i C_i C_type = Some k'"
  shows "triangular_log k'"
proof -
  from assms(3) obtain c WG Wo s where c: "current kalman = Some c"
    and w: "observe_weigh K G_i o_i C_i C_type = Some (WG, Wo)"
    and s: "observe_seal K c (matrix_create_vconcat (Rbar c) WG)
              (matrix_create_vconcat (ybar c) Wo) = Some s"
    and k': "k' = kalman\<lparr>steps := farray_append (steps kalman) s, current := Some s\<rparr>"
    by (rule kalman_observe_SomeD)
  from assms(1) c have "determined_triangular c" by (simp add: triangular_log_def)
  moreover from assms(2) c w
  have "case matrix_create_vconcat (Rbar c) WG of
          Some A \<Rightarrow> int (matrix_cols A) = dimension c | None \<Rightarrow> True"
    by (simp add: observe_block_fits_def)
  ultimately have "determined_triangular s" by (rule observe_seal_triangular [OF s])
  with assms(1) k' show ?thesis
    by (simp add: triangular_log_def farray_append_def)
qed

lemma triangular_smooth:
  assumes "triangular_log kalman" and "kalman_smooth K kalman = Some k'"
  shows "triangular_log k'"
proof (cases "contents (steps kalman) = []")
  case True
  with assms show ?thesis by (simp add: kalman_smooth_def farray_size_def)
next
  case False
  from assms(2) False obtain es1 es2 carried where
    1: "smooth_states K (contents (steps kalman)) = Some es1"
    and 2: "smooth_covariances K es1 = Some (es2, carried)"
    and k': "k' = kalman\<lparr>steps := (steps kalman)\<lparr>contents := es2\<rparr>\<rparr>"
    by (rule kalman_smooth_SomeD)
  from assms(1) have "\<forall>s \<in> set (contents (steps kalman)). determined_triangular s"
    by (simp add: triangular_log_def)
  with smooth_states_dimension [OF 1] have "\<forall>s \<in> set es1. determined_triangular s"
    by (rule determined_triangular_frame)
  with smooth_covariances_dimension [OF 2] have "\<forall>s \<in> set es2. determined_triangular s"
    by (rule determined_triangular_frame)
  with assms(1) k' show ?thesis by (simp add: triangular_log_def)
qed

lemma triangular_rollback:
  assumes "triangular_log kalman" and "kalman_rollback kalman si = Some k'"
  shows "triangular_log k'"
proof (cases "kalman_rollback kalman si = rollback_loop kalman si")
  case True
  with assms(2) rollback_loop_log [of kalman si k'] assms(1) show ?thesis
    by (auto simp: triangular_log_def determined_triangular_reopened)
next
  case False
  then have "kalman_rollback kalman si = Some kalman"
    by (auto simp: kalman_rollback_def split: if_splits)
  with assms show ?thesis by simp
qed

lemma triangular_forget:
  assumes "triangular_log kalman" and "kalman_forget kalman si = Some k'"
  shows "triangular_log k'"
proof -
  from assms(2) have "k' = kalman \<or> (\<exists>a'. forget_loop (steps kalman)
      (if si < 0 then farray_last_index (steps kalman) - 1 else si) = Some a' \<and>
      k' = kalman\<lparr>steps := a'\<rparr>)"
    by (auto simp: kalman_forget_def Let_def bind_eq_Some_conv split: if_splits)
  then show ?thesis
  proof
    assume "k' = kalman"
    with assms(1) show ?thesis by simp
  next
    assume "\<exists>a'. forget_loop (steps kalman)
      (if si < 0 then farray_last_index (steps kalman) - 1 else si) = Some a' \<and>
      k' = kalman\<lparr>steps := a'\<rparr>"
    then obtain a' where a: "forget_loop (steps kalman)
      (if si < 0 then farray_last_index (steps kalman) - 1 else si) = Some a'"
      and k': "k' = kalman\<lparr>steps := a'\<rparr>" by blast
    from forget_loop_log [OF a] assms(1) k' show ?thesis
      by (auto simp: triangular_log_def)
  qed
qed

text \<open>
  Claim C6. In the new filter, and after every operation on a triangular filter
  that returns, every step of the log (and the current step) whose \<open>Rdiag\<close> is
  non-null with exactly \<open>n_i\<close> rows has an upper triangular \<open>Rdiag\<close>; for
  \<^verbatim>\<open>kalman_observe\<close> the stacked block is taken to have \<open>n_i\<close> columns, as the
  observation equation of a step of dimension \<open>n_i\<close> requires.
\<close>

theorem Rdiag_upper_triangular:
  "triangular_log (kalman_create :: 'a::{zero,one,times,uminus} kalman_t) \<and>
   (triangular_log kalman \<longrightarrow>
     (\<forall>k'. kalman_evolve K kalman n_i H_i F_i c_i K_i K_type = Some k' \<longrightarrow> triangular_log k') \<and>
     (\<forall>k'. observe_block_fits K kalman G_i o_i C_i C_type \<and>
           kalman_observe K kalman G_i o_i C_i C_type = Some k' \<longrightarrow> triangular_log k') \<and>
     (\<forall>k'. kalman_smooth K kalman = Some k' \<longrightarrow> triangular_log k') \<and>
     (\<forall>k'. kalman_rollback kalman si = Some k' \<longrightarrow> triangular_log k') \<and>
     (\<forall>k'. kalman_forget kalman si = Some k' \<longrightarrow> triangular_log k'))"
proof (intro conjI impI allI)
  show "triangular_log (kalman_create :: 'a kalman_t)"
    by (simp add: triangular_log_def kalman_create_def farray_create_def)
  assume t: "triangular_log kalman"
  show "triangular_log k'"
    if "kalman_evolve K kalman n_i H_i F_i c_i K_i K_type = Some k'" for k'
    using t that by (rule triangular_evolve)
  show "triangular_log k'"
    if "observe_block_fits K kalman G_i o_i C_i C_type \<and>
        kalman_observe K kalman G_i o_i C_i C_type = Some k'" for k'
    using t that by (auto intro: triangular_observe)
  show "triangular_log k'" if "kalman_smooth K kalman = Some k'" for k'
    using t that by (rule triangular_smooth)
  show "triangular_log k'" if "kalman_rollback kalman si = Some k'" for k'
    using t that by (rule triangular_rollback)
  show "triangular_log k'" if "kalman_forget kalman si = Some k'" for k'
    using t that by (rule triangular_forget)
qed

text \<open>The second \<^verbatim>\<open>observe\<close> of the sample run seals a determined, triangular step.\<close>

theorem Rdiag_upper_triangular_witness:
  "triangular_log run_open1 \<and>
   observe_block_fits example_kernel run_open1 (Some I2) (Some o2) (Some I2) (CHR ''W'') \<and>
   kalman_observe example_kernel run_open1 (Some I2) (Some o2) (Some I2) (CHR ''W'') = Some run_two \<and>
   triangular_log run_two \<and>
   Rdiag sealed_step1 = Some I2 \<and> int (matrix_rows I2) = dimension sealed_step1 \<and>
   upper_triangular I2"
proof -
  have h: "triangular_log run_open1"
    "observe_block_fits example_kernel run_open1 (Some I2) (Some o2) (Some I2) (CHR ''W'')"
    "kalman_observe example_kernel run_open1 (Some I2) (Some o2) (Some I2) (CHR ''W'') = Some run_two"
    by code_simp+
  from Rdiag_upper_triangular [of run_open1 example_kernel _ _ _ _ _ _ "Some I2" "Some o2" "Some I2" "CHR ''W''"] h
  have t: "triangular_log run_two" by blast
  then have "determined_triangular sealed_step1"
    by (simp add: triangular_log_def run_two_def)
  moreover have "Rdiag sealed_step1 = Some I2" "int (matrix_rows I2) = dimension sealed_step1"
    by code_simp+
  ultimately show ?thesis using h t
    by (simp add: determined_triangular_def)
qed

subsection \<open>A missing evolution matrix\<close>

lemma kalman_evolve_null_H:
  "farray_size (steps kalman) \<noteq> 0 \<Longrightarrow>
     kalman_evolve K kalman n_i None F_i c_i K_i K_type = None"
  by (simp add: kalman_evolve_def Let_def)

lemma evolve_H_empty:
  assumes "0 < l_i"
  shows "\<exists>H. evolve_H n_i (Matrix 0 0 []) l_i = Some H \<and>
     matrix_rows H = l_i \<and> matrix_cols H = max l_i n_i \<and>
     (\<forall>i<l_i. \<forall>j<max l_i n_i. matrix_get H i j = (if i = j then 1 else 0)) \<and>
     (l_i = n_i \<longrightarrow> H = eye n_i)"
proof (cases "l_i = n_i")
  case True
  with assms show ?thesis
    by (simp add: evolve_H_def eye_def matrix_get_def)
next
  case False
  with assms show ?thesis
    by (auto simp: evolve_H_def horzcat_def eye_def zeros_def matrix_get_def
        matrix_create_constant_def max_def)
qed

lemma evolve_H_explicit:
  "matrix_rows H = l_i \<Longrightarrow> evolve_H n_i H l_i = Some H"
  by (simp add: evolve_H_def)

lemma evolve_m_cong:
  "evolve_H n_i H (matrix_rows F_i) = evolve_H n_i H' (matrix_rows F_i) \<Longrightarrow>
     evolve_m M kalman n_i H F_i c_i K_i = evolve_m M kalman n_i H' F_i c_i K_i"
  by (simp add: evolve_m_def Let_def)

text \<open>
  Claim C8, amended. In the C engine an \<^verbatim>\<open>evolve\<close> call on a non-empty log with a
  null \<open>H_i\<close> does not return: it fails \<^verbatim>\<open>assert(H_i!=NULL)\<close>, and nothing is sealed.
  In the MATLAB engine an empty \<open>H_i\<close>, for an \<open>F_i\<close> with at least one row, is
  replaced by the matrix \<open>[I | 0]\<close> with the rows of \<open>F_i\<close> and \<open>max (rows F_i) n_i\<close>
  columns (the identity when \<open>rows F_i = n_i\<close>), and the call gives what it gives
  when that matrix is passed explicitly.
\<close>

theorem evolve_null_H:
  "(farray_size (steps kalman) \<noteq> 0 \<longrightarrow>
      kalman_evolve K kalman n_i None F_i c_i K_i K_type = None) \<and>
   (0 < matrix_rows (F :: 'b::{zero,one,uminus} matrix) \<longrightarrow>
      (\<exists>H. evolve_H n (Matrix 0 0 []) (matrix_rows F) = Some H \<and>
         matrix_rows H = matrix_rows F \<and> matrix_cols H = max (matrix_rows F) n \<and>
         (\<forall>i<matrix_rows F. \<forall>j<max (matrix_rows F) n.
            matrix_get H i j = (if i = j then 1 else 0)) \<and>
         (matrix_rows F = n \<longrightarrow> H = eye n) \<and>
         evolve_m M kalman_m n (Matrix 0 0 []) F c Kc = evolve_m M kalman_m n H F c Kc))"
proof (intro conjI impI)
  assume "farray_size (steps kalman) \<noteq> 0"
  then show "kalman_evolve K kalman n_i None F_i c_i K_i K_type = None"
    by (rule kalman_evolve_null_H)
next
  assume l: "0 < matrix_rows F"
  from evolve_H_empty [OF l, of n] obtain H :: "'b matrix" where
    H: "evolve_H n (Matrix 0 0 []) (matrix_rows F) = Some H"
    and shape: "matrix_rows H = matrix_rows F" "matrix_cols H = max (matrix_rows F) n"
      "\<forall>i<matrix_rows F. \<forall>j<max (matrix_rows F) n. matrix_get H i j = (if i = j then 1 else 0)"
      "matrix_rows F = n \<longrightarrow> H = eye n"
    by blast
  from H evolve_H_explicit [OF shape(1), of n]
  have "evolve_m M kalman_m n (Matrix 0 0 []) F c Kc = evolve_m M kalman_m n H F c Kc"
    by (intro evolve_m_cong) simp
  with H shape show "\<exists>H. evolve_H n (Matrix 0 0 []) (matrix_rows F) = Some H \<and>
         matrix_rows H = matrix_rows F \<and> matrix_cols H = max (matrix_rows F) n \<and>
         (\<forall>i<matrix_rows F. \<forall>j<max (matrix_rows F) n.
            matrix_get H i j = (if i = j then 1 else 0)) \<and>
         (matrix_rows F = n \<longrightarrow> H = eye n) \<and>
         evolve_m M kalman_m n (Matrix 0 0 []) F c Kc = evolve_m M kalman_m n H F c Kc"
    by blast
qed

text \<open>The second \<^verbatim>\<open>evolve\<close> of the sample run, in both engines.\<close>

theorem evolve_null_H_witness:
  "farray_size (steps run_one) \<noteq> 0 \<and>
   kalman_evolve example_kernel run_one 2 None (Some I2) (Some o2) (Some I2) (CHR ''W'') = None \<and>
   0 < matrix_rows I2 \<and>
   evolve_H 2 (Matrix 0 0 []) (matrix_rows I2) = Some I2 \<and>
   evolve_m example_matlab matlab_one 2 (Matrix 0 0 []) I2 o2 () = Some matlab_open1 \<and>
   evolve_m example_matlab matlab_one 2 I2 I2 o2 () = Some matlab_open1"
proof -
  have h: "farray_size (steps run_one) \<noteq> 0" "0 < matrix_rows I2" by code_simp+
  have e: "evolve_H 2 (Matrix 0 0 []) (matrix_rows I2) = Some I2"
    "evolve_m example_matlab matlab_one 2 (Matrix 0 0 []) I2 o2 () = Some matlab_open1"
    by code_simp+
  from evolve_null_H [of run_one example_kernel 2 "Some I2" "Some o2" "Some I2" "CHR ''W''"
      I2 2 example_matlab matlab_one o2 "()"] h e
  show ?thesis by auto
qed

text \<open>
  Claim C8 as stated fails on the C engine: on the log of one step, \<^verbatim>\<open>evolve\<close> with a
  null \<open>H_i\<close> does not complete, while it does with the identity passed explicitly.
\<close>

theorem evolve_null_H_counterexample:
  "kalman_latest run_one = 0 \<and>
   kalman_evolve example_kernel run_one 2 None (Some I2) (Some o2) (Some I2) (CHR ''W'') = None \<and>
   kalman_evolve example_kernel run_one 2 (Some I2) (Some I2) (Some o2) (Some I2) (CHR ''W'') =
     Some run_open1"
  by code_simp

section \<open>Properties of the associative smoother\<close>

text \<open>
  No filtering element has an \<open>L\<close>: \<^verbatim>\<open>elements_init\<close> sets it to null,
  \<^verbatim>\<open>build_filtering_element_new\<close> does not assign it, and the filtering combiner
  returns its argument or a blank element with \<open>A, b, Z, e, J\<close>.
\<close>

lemma map_L_update:
  assumes "e_L x = e_L (xs ! i)"
  shows "map e_L (xs[i := x]) = map e_L xs"
proof (cases "i < length xs")
  case True
  with assms show ?thesis
    by (simp add: map_update list_update_same_conv)
next
  case False
  then have "xs[i := x] = xs"
    by (intro list_update_beyond) simp
  then show ?thesis
    by simp
qed

lemma build_filtering_element_new_L:
  "map e_L (build_filtering_element_new K equations elements_v i) = map e_L elements_v"
  by (simp add: build_filtering_element_new_def Let_def case_prod_beta map_L_update)

lemma build_filtering_elements_new_L:
  "map e_L (build_filtering_elements_new K equations elements_v l start end) = map e_L elements_v"
proof -
  have "map e_L (fold (\<lambda>j elements_v. build_filtering_element_new K equations elements_v j)
      js elements_v) = map e_L elements_v" for js
    by (induction js arbitrary: elements_v) (simp_all add: build_filtering_element_new_L)
  then show ?thesis
    by (simp add: build_filtering_elements_new_def)
qed

lemma elements_init_L:
  "map e_L (elements_init l) = replicate l None"
  by (simp add: elements_init_def element_create_def comp_def map_replicate_const)

lemma length_build_smoothing_element_new:
  "length (build_smoothing_element_new K elements_v n i) = length elements_v"
  by (simp add: build_smoothing_element_new_def Let_def)

lemma length_build_smoothing_elements_new:
  "length (build_smoothing_elements_new K elements_v l start end) = length elements_v"
proof -
  have "length (fold (\<lambda>j elements_v. build_smoothing_element_new K elements_v l j)
      js elements_v) = length elements_v" for js
    by (induction js arbitrary: elements_v) (simp_all add: length_build_smoothing_element_new)
  then show ?thesis
    by (simp add: build_smoothing_elements_new_def)
qed

lemma filteringAssociativeOperation_L:
  assumes "\<And>e. si_v = Some e \<Longrightarrow> e_L e = None"
    and "\<And>e. sj_v = Some e \<Longrightarrow> e_L e = None"
    and "filteringAssociativeOperation K si_v sj_v = Some sij"
  shows "e_L sij = None"
  using assms
  by (auto simp add: filteringAssociativeOperation_def Let_def element_create_def
      split: option.splits)

lemma filteringAssociativeOperation_Some:
  "filteringAssociativeOperation K si_v (Some sj) \<noteq> None"
  by (simp add: filteringAssociativeOperation_def Let_def split: option.splits)

lemma smoothingAssociativeOperation_Some:
  "smoothingAssociativeOperation K si_v (Some sj) \<noteq> None"
  by (simp add: smoothingAssociativeOperation_def Let_def split: option.splits)

text \<open>
  The scan has an entry for each element of its input, none of them null, and an
  invariant of the combiner holds of every entry.
\<close>

lemma length_inclusive_scan:
  "length (inclusive_scan f temp xs) = length xs"
  by (induction xs arbitrary: temp) (simp_all add: Let_def)

lemma inclusive_scan_Some:
  assumes "\<And>a x. f a (Some x) \<noteq> None"
  shows "i < length xs \<Longrightarrow> inclusive_scan f temp xs ! i \<noteq> None"
proof (induction xs arbitrary: temp i)
  case Nil
  then show ?case by simp
next
  case (Cons x xs)
  then show ?case
    using assms by (cases i) (simp_all add: Let_def)
qed

lemma inclusive_scan_invariant:
  assumes "\<And>a b. P a \<Longrightarrow> P b \<Longrightarrow> P (f a b)"
  shows "P temp \<Longrightarrow> \<forall>x \<in> set xs. P (Some x) \<Longrightarrow> \<forall>p \<in> set (inclusive_scan f temp xs). P p"
proof (induction xs arbitrary: temp)
  case Nil
  then show ?case by simp
next
  case (Cons x xs)
  have "P (f temp (Some x))"
    using Cons.prems assms by simp
  with Cons show ?case
    by (simp add: Let_def)
qed

text \<open>
  The two loops that write the scans back return when the entries they read are
  not null; the second one leaves the equations outside its range as they are.
\<close>

lemma filtered_to_state_loop_Some:
  assumes "\<forall>j \<in> set js. filtered ! (j - 1) \<noteq> None"
  shows "\<exists>elements_v'. filtered_to_state_loop K filtered js elements_v = Some elements_v' \<and>
    length elements_v' = length elements_v"
  using assms
proof (induction js arbitrary: elements_v)
  case Nil
  then show ?case by simp
next
  case (Cons j js)
  then obtain f where f: "filtered ! (j - 1) = Some f"
    by auto
  let ?els = "elements_v[j := (elements_v ! j)
          \<lparr>e_state := create_copy K (e_b f),
           e_covariance := create_copy K (e_Z f)\<rparr>]"
  from Cons.IH [of ?els] Cons.prems obtain elements_v'
    where "filtered_to_state_loop K filtered js ?els = Some elements_v'"
      and "length elements_v' = length elements_v"
    by auto
  with f show ?case
    by simp
qed

lemma smoothed_to_state_loop_Some:
  assumes "\<forall>j \<in> set js. smoothed ! (l - 2 - j + 1) \<noteq> None"
  shows "\<exists>equations'. smoothed_to_state_loop K smoothed l js equations = Some equations' \<and>
    length equations' = length equations \<and>
    (\<forall>k. k \<notin> set js \<longrightarrow> equations' ! k = equations ! k)"
  using assms
proof (induction js arbitrary: equations)
  case Nil
  then show ?case by simp
next
  case (Cons j js)
  then obtain s where s: "smoothed ! (l - 2 - j + 1) = Some s"
    by auto
  let ?eqs = "equations[j := (equations ! j)
          \<lparr>q_state := create_copy K (e_g s),
           q_covariance := create_copy K (e_L s),
           q_covariance_type := CHR ''C''\<rparr>]"
  from Cons.IH [of ?eqs] Cons.prems obtain equations'
    where "smoothed_to_state_loop K smoothed l js ?eqs = Some equations'"
      and "length equations' = length equations"
      and "\<forall>k. k \<notin> set js \<longrightarrow> equations' ! k = ?eqs ! k"
    by auto
  with s show ?case
    by auto
qed

lemma length_associative_filtered:
  "length (snd (associative_filtered K equations l)) = l - 1"
  using arg_cong [OF build_filtering_elements_new_L [of K equations "elements_init l" l 0 l],
      of length]
  by (simp add: associative_filtered_def Let_def prefix_sums_pointers_def length_inclusive_scan
      elements_init_def)

lemma associative_filtered_Some:
  assumes "i < l - 1"
  shows "snd (associative_filtered K equations l) ! i \<noteq> None"
proof -
  have "i < length (drop 1 (build_filtering_elements_new K equations (elements_init l) l 0 l))"
    using assms length_associative_filtered [of K equations l]
    by (simp add: associative_filtered_def Let_def prefix_sums_pointers_def
        length_inclusive_scan)
  then show ?thesis
    by (simp add: associative_filtered_def Let_def prefix_sums_pointers_def
        inclusive_scan_Some filteringAssociativeOperation_Some del: drop_Suc)
qed

lemma associative_filtered_L:
  assumes "i < l - 1" and "snd (associative_filtered K equations l) ! i = Some f"
  shows "e_L f = None"
proof -
  let ?els = "build_filtering_elements_new K equations (elements_init l) l 0 l"
  have "map e_L ?els = replicate l None"
    by (simp add: build_filtering_elements_new_L elements_init_L)
  then have "\<forall>x \<in> set (map e_L ?els). x = None"
    by simp
  then have els: "\<forall>x \<in> set ?els. e_L x = None"
    by simp
  then have "\<forall>x \<in> set (drop 1 ?els). e_L x = None"
    by (meson in_set_dropD)
  then have "\<forall>p \<in> set (inclusive_scan (filteringAssociativeOperation K) None (drop 1 ?els)).
      \<forall>e. p = Some e \<longrightarrow> e_L e = None"
    using inclusive_scan_invariant [where P = "\<lambda>p. \<forall>e. p = Some e \<longrightarrow> e_L e = None"
        and f = "filteringAssociativeOperation K" and temp = None and xs = "drop 1 ?els"]
      filteringAssociativeOperation_L [of _ _ K]
    by blast
  moreover have "snd (associative_filtered K equations l) ! i
      \<in> set (snd (associative_filtered K equations l))"
    using assms(1) by (simp add: length_associative_filtered)
  ultimately show ?thesis
    using assms(2)
    by (simp add: associative_filtered_def Let_def prefix_sums_pointers_def)
qed


lemma length_associative_elements:
  "length (fst (associative_filtered K equations l)) = l"
  using arg_cong [OF build_filtering_elements_new_L [of K equations "elements_init l" l 0 l],
      of length]
  by (simp add: associative_filtered_def Let_def elements_init_def)

text \<open>
  Claim C9. For \<open>l \<ge> 2\<close> equations \<^verbatim>\<open>kalman_smooth_associative\<close> returns, and in the
  last equation the state is a copy of the payload \<open>b\<close> of the last filtered
  element and the covariance type is \<open>'C'\<close>. The covariance is a copy of that
  element's \<open>L\<close>, which is null, where the claim has a copy of its filtered
  covariance \<open>Z\<close>: the comment in the code says that the filtered estimate is copied,
  and \<^verbatim>\<open>filtered_to_state_new\<close> copies \<open>Z\<close> from the same element.
\<close>

theorem associative_last_step:
  assumes "2 \<le> l" and "length equations = l"
  shows "\<exists>filtered_last smoothed_equations.
    snd (associative_filtered K equations l) ! (l - 2) = Some filtered_last \<and>
    kalman_smooth_associative K equations l = Some smoothed_equations \<and>
    q_state (smoothed_equations ! (l - 1)) = create_copy K (e_b filtered_last) \<and>
    e_L filtered_last = None \<and>
    q_covariance (smoothed_equations ! (l - 1)) = create_copy K None \<and>
    q_covariance_type (smoothed_equations ! (l - 1)) = CHR ''C''"
proof -
  obtain elements_v filtered where af: "associative_filtered K equations l = (elements_v, filtered)"
    by (cases "associative_filtered K equations l")
  have len: "length elements_v = l"
    using length_associative_elements [of K equations l] af by simp
  have some: "filtered ! i \<noteq> None" if "i < l - 1" for i
    using associative_filtered_Some [OF that, of K equations] af by simp
  have "l - 2 < l - 1"
    using assms(1) by linarith
  from some [OF this] obtain filtered_last
    where last: "filtered ! (l - 2) = Some filtered_last"
    by auto
  have L: "e_L filtered_last = None"
    using associative_filtered_L [of "l - 2" l K equations filtered_last] assms(1) af last
    by simp
  have "\<forall>j \<in> set [0 + 1..<l - 1 + 1]. filtered ! (j - 1) \<noteq> None"
    using some by auto
  from filtered_to_state_loop_Some [OF this, of K elements_v] obtain elements_v'
    where fs: "filtered_to_state_new K elements_v filtered l 0 (l - 1) = Some elements_v'"
      and len': "length elements_v' = l"
    using len by (auto simp add: filtered_to_state_new_def)
  let ?eqs = "equations[l - 1 := (equations ! (l - 1))
       \<lparr>q_state := create_copy K (e_b filtered_last),
        q_covariance := create_copy K (e_L filtered_last),
        q_covariance_type := CHR ''C''\<rparr>]"
  let ?smoothed = "prefix_sums_pointers (smoothingAssociativeOperation K)
    (build_smoothing_elements_new K elements_v' l 0 l) (- 1)"
  have "?smoothed ! i \<noteq> None" if "i < l" for i
    using that len'
    by (simp add: prefix_sums_pointers_def inclusive_scan_Some
        smoothingAssociativeOperation_Some length_build_smoothing_elements_new)
  then have "\<forall>j \<in> set [0..<l - 1]. ?smoothed ! (l - 2 - j + 1) \<noteq> None"
    using assms(1) by auto
  from smoothed_to_state_loop_Some [OF this, of K ?eqs] obtain smoothed_equations
    where ss: "smoothed_to_state_new K ?eqs ?smoothed l 0 (l - 1) = Some smoothed_equations"
      and frame: "\<forall>k. k \<notin> set [0..<l - 1] \<longrightarrow> smoothed_equations ! k = ?eqs ! k"
    by (auto simp add: smoothed_to_state_new_def)
  have "smoothed_equations ! (l - 1) = ?eqs ! (l - 1)"
    using frame by simp
  also have "\<dots> = (equations ! (l - 1))
       \<lparr>q_state := create_copy K (e_b filtered_last),
        q_covariance := create_copy K (e_L filtered_last),
        q_covariance_type := CHR ''C''\<rparr>"
    using assms by simp
  finally have eq: "smoothed_equations ! (l - 1) = (equations ! (l - 1))
       \<lparr>q_state := create_copy K (e_b filtered_last),
        q_covariance := create_copy K (e_L filtered_last),
        q_covariance_type := CHR ''C''\<rparr>" .
  have "kalman_smooth_associative K equations l = Some smoothed_equations"
    using af fs last ss by (simp add: kalman_smooth_associative_def)
  with af last L eq show ?thesis
    by simp
qed


text \<open>The two sample equations.\<close>

theorem associative_last_step_witness:
  "2 \<le> (2 :: nat) \<and> length [equation0, equation1] = 2 \<and>
   snd (associative_filtered example_pointer_kernel [equation0, equation1] 2) ! (2 - 2) =
     Some filtered1 \<and>
   kalman_smooth_associative example_pointer_kernel [equation0, equation1] 2 =
     Some smoothed_equations2 \<and>
   q_state (smoothed_equations2 ! (2 - 1)) = create_copy example_pointer_kernel (e_b filtered1) \<and>
   e_L filtered1 = None \<and>
   q_covariance (smoothed_equations2 ! (2 - 1)) = create_copy example_pointer_kernel None \<and>
   q_covariance_type (smoothed_equations2 ! (2 - 1)) = CHR ''C''"
proof -
  have h: "2 \<le> (2 :: nat)" "length [equation0, equation1] = 2"
    by simp_all
  have f: "snd (associative_filtered example_pointer_kernel [equation0, equation1] 2) ! (2 - 2) =
      Some filtered1"
    by code_simp
  have s: "kalman_smooth_associative example_pointer_kernel [equation0, equation1] 2 =
      Some smoothed_equations2"
    by code_simp
  from associative_last_step [OF h, of example_pointer_kernel] f s h show ?thesis
    by simp
qed

text \<open>
  On the two sample equations the covariance left in the last equation is null,
  while the copy of the last filtered element's \<open>Z\<close> is the identity.
\<close>

theorem associative_last_covariance_counterexample:
  "kalman_smooth_associative example_pointer_kernel [equation0, equation1] 2 =
     Some smoothed_equations2 \<and>
   snd (associative_filtered example_pointer_kernel [equation0, equation1] 2) ! 0 =
     Some filtered1 \<and>
   q_covariance (smoothed_equations2 ! 1) = None \<and>
   create_copy example_pointer_kernel (e_Z filtered1) = Some I2"
  by code_simp

end
